theory Spec2Isabelle
  imports Main "HOL-Library.Multiset"
begin

section \<open>JavaScript values\<close>

text \<open>
  Cell values and filter values are dynamically typed in the source (\<open>row: any\<close>,
  \<open>(a as any)[sortBy]\<close>).  The primitive values that a JSON row can hold are modelled
  by \<open>jsval\<close>; numbers are restricted to integers and \<open>NaN\<close>.
\<close>

datatype jsval =
    JUndefined
  | JNull
  | JBool bool
  | JNum int
  | JNaN
  | JStr string

text \<open>\<open>!v\<close> is true exactly for the falsy values.\<close>

fun falsy :: "jsval \<Rightarrow> bool" where
  "falsy JUndefined = True"
| "falsy JNull = True"
| "falsy (JBool b) = (\<not> b)"
| "falsy (JNum n) = (n = 0)"
| "falsy JNaN = True"
| "falsy (JStr s) = (s = [])"

text \<open>\<open>a === b\<close> on primitives: same type and same value, and \<open>NaN\<close> equals nothing.\<close>

fun strict_eq :: "jsval \<Rightarrow> jsval \<Rightarrow> bool" where
  "strict_eq JUndefined JUndefined = True"
| "strict_eq JNull JNull = True"
| "strict_eq (JBool a) (JBool b) = (a = b)"
| "strict_eq (JNum a) (JNum b) = (a = b)"
| "strict_eq (JStr a) (JStr b) = (a = b)"
| "strict_eq _ _ = False"

text \<open>
  \<open>SameValueZero\<close>, the comparison of \<open>Array.prototype.includes\<close>: like \<open>===\<close>
  except that \<open>NaN\<close> is the same as \<open>NaN\<close>.
\<close>

fun sameValueZero :: "jsval \<Rightarrow> jsval \<Rightarrow> bool" where
  "sameValueZero JNaN JNaN = True"
| "sameValueZero a b = strict_eq a b"

fun array_includes :: "jsval list \<Rightarrow> jsval \<Rightarrow> bool" where
  "array_includes [] v = False"
| "array_includes (x # xs) v = (if sameValueZero x v then True else array_includes xs v)"

text \<open>
  A row is an object; \<open>row.getValue(colId)\<close> and \<open>a[sortBy]\<close> read a property and
  give \<open>undefined\<close> when it is absent.
\<close>

type_synonym row = "(string \<times> jsval) list"

definition getValue :: "row \<Rightarrow> string \<Rightarrow> jsval" where
  "getValue r colId = (case map_of r colId of None \<Rightarrow> JUndefined | Some v \<Rightarrow> v)"

section \<open>Numbers\<close>

text \<open>
  A number of the language that is not a fraction: \<open>NaN\<close>, an infinity, or a finite
  double with an integer value (\<open>-0\<close> behaves as \<open>0\<close> in everything below).  The
  result of \<open>parseInt\<close> and of arithmetic on such numbers is again of this kind.
  Sums, differences and products are rounded to the nearest double, ties to even, and
  overflow to an infinity from \<open>2^1024\<close> on; below \<open>2^53\<close> they are exact.
\<close>

datatype jsnum = NaN | NegInf | Fin int | PosInf

fun bit_length :: "nat \<Rightarrow> nat" where
  "bit_length n = (if n = 0 then 0 else Suc (bit_length (n div 2)))"

declare bit_length.simps [simp del]

definition round_double :: "int \<Rightarrow> jsnum" where
  "round_double n =
     (let m = nat \<bar>n\<bar> in
      if m < 2 ^ 53 then Fin n
      else
        let e = bit_length m - 53;
            q = m div 2 ^ e;
            r = m mod 2 ^ e;
            q' = (if 2 ^ e < 2 * r \<or> (2 * r = 2 ^ e \<and> odd q) then q + 1 else q);
            v = q' * 2 ^ e
        in if 2 ^ 1024 \<le> v then (if n < 0 then NegInf else PosInf)
           else Fin (if n < 0 then - int v else int v))"

text \<open>A finite number of the language: an integer that rounding leaves as it is.\<close>

definition is_double :: "int \<Rightarrow> bool" where
  "is_double n = (round_double n = Fin n)"

fun num_neg :: "jsnum \<Rightarrow> jsnum" where
  "num_neg NaN = NaN"
| "num_neg NegInf = PosInf"
| "num_neg (Fin a) = Fin (- a)"
| "num_neg PosInf = NegInf"

fun num_add :: "jsnum \<Rightarrow> jsnum \<Rightarrow> jsnum" where
  "num_add NaN _ = NaN"
| "num_add _ NaN = NaN"
| "num_add PosInf NegInf = NaN"
| "num_add NegInf PosInf = NaN"
| "num_add PosInf _ = PosInf"
| "num_add _ PosInf = PosInf"
| "num_add NegInf _ = NegInf"
| "num_add _ NegInf = NegInf"
| "num_add (Fin a) (Fin b) = round_double (a + b)"

definition num_sub :: "jsnum \<Rightarrow> jsnum \<Rightarrow> jsnum" where
  "num_sub a b = num_add a (num_neg b)"

text \<open>The sign of a number that is not \<open>NaN\<close>, for the product with an infinity.\<close>

fun num_sign :: "jsnum \<Rightarrow> int" where
  "num_sign NaN = 0"
| "num_sign NegInf = - 1"
| "num_sign (Fin a) = sgn a"
| "num_sign PosInf = 1"

fun is_inf :: "jsnum \<Rightarrow> bool" where
  "is_inf NegInf = True"
| "is_inf PosInf = True"
| "is_inf _ = False"

fun num_mul :: "jsnum \<Rightarrow> jsnum \<Rightarrow> jsnum" where
  "num_mul NaN _ = NaN"
| "num_mul _ NaN = NaN"
| "num_mul (Fin a) (Fin b) = round_double (a * b)"
| "num_mul x y =
     (if num_sign x * num_sign y = 0 then NaN
      else if num_sign x * num_sign y < 0 then NegInf else PosInf)"

text \<open>\<open>a < b\<close> and \<open>a <= b\<close> on numbers: false as soon as one side is \<open>NaN\<close>.\<close>

fun num_less :: "jsnum \<Rightarrow> jsnum \<Rightarrow> bool" where
  "num_less NaN _ = False"
| "num_less _ NaN = False"
| "num_less PosInf _ = False"
| "num_less _ NegInf = False"
| "num_less NegInf _ = True"
| "num_less _ PosInf = True"
| "num_less (Fin a) (Fin b) = (a < b)"

definition num_le :: "jsnum \<Rightarrow> jsnum \<Rightarrow> bool" where
  "num_le a b = (a \<noteq> NaN \<and> b \<noteq> NaN \<and> \<not> num_less b a)"

section \<open>Configuration and state types of the DataTable component\<close>

text \<open>
  The component is the second part of \<open>src/app/server-table/page.tsx\<close>.  A delegate
  callback either returns or throws; \<open>error\<close> is the thrown value.
\<close>

datatype error = Error string

datatype cb_result = Returned | Threw error

type_synonym sorting_state = "(string \<times> bool) list"

record pagination_state =
  pageIndex :: int
  pageSize :: int

text \<open>
  A \<open>Date\<close> object is its time value in milliseconds; \<open>None\<close> is the time value \<open>NaN\<close>
  of an invalid date.
\<close>

type_synonym jsdate = "int option"

record date_range =
  range_from :: "jsdate option"
  range_to :: "jsdate option"

datatype filter_value =
    FString string
  | FArray "jsval list"
  | FRange date_range

type_synonym column_filters_state = "(string \<times> filter_value) list"

record ServerSideConfig =
  enabled :: bool
  pageCount :: int
  loading :: "bool option"
  onPaginationChange :: "(pagination_state \<Rightarrow> cb_result) option"
  onSortingChange :: "(sorting_state \<Rightarrow> cb_result) option"
  onColumnFiltersChange :: "(column_filters_state \<Rightarrow> cb_result) option"
  manualPagination :: "bool option"
  manualSorting :: "bool option"
  manualFiltering :: "bool option"

section \<open>Server-side mode flags\<close>

text \<open>\<open>a ?? b\<close>: the left operand unless it is \<open>undefined\<close>.\<close>

fun nullish :: "'a option \<Rightarrow> 'a \<Rightarrow> 'a" where
  "nullish None d = d"
| "nullish (Some a) d = a"

text \<open>\<open>serverSide?.f\<close>: \<open>undefined\<close> when \<open>serverSide\<close> itself is absent.\<close>

fun opt_chain :: "'c option \<Rightarrow> ('c \<Rightarrow> 'a option) \<Rightarrow> 'a option" where
  "opt_chain None f = None"
| "opt_chain (Some c) f = f c"

text \<open>\<open>x || false\<close> for a flag that may be \<open>undefined\<close>.\<close>

fun or_false :: "bool option \<Rightarrow> bool" where
  "or_false None = False"
| "or_false (Some b) = (b \<or> False)"

text \<open>
  The flags computed at the head of \<open>DataTable\<close>:
  \<open>isServerSide = serverSide?.enabled || false\<close> and
  \<open>manualX = serverSide?.manualX ?? isServerSide\<close>.
\<close>

definition isServerSide :: "ServerSideConfig option \<Rightarrow> bool" where
  "isServerSide serverSide = or_false (opt_chain serverSide (\<lambda>c. Some (enabled c)))"

definition table_manualPagination :: "ServerSideConfig option \<Rightarrow> bool" where
  "table_manualPagination serverSide =
     nullish (opt_chain serverSide manualPagination) (isServerSide serverSide)"

definition table_manualSorting :: "ServerSideConfig option \<Rightarrow> bool" where
  "table_manualSorting serverSide =
     nullish (opt_chain serverSide manualSorting) (isServerSide serverSide)"

definition table_manualFiltering :: "ServerSideConfig option \<Rightarrow> bool" where
  "table_manualFiltering serverSide =
     nullish (opt_chain serverSide manualFiltering) (isServerSide serverSide)"

section \<open>Filter predicates\<close>

text \<open>
  \<open>exactMatchFilter\<close>, \<open>multiSelectFilter\<close> and \<open>dateRangeFilter\<close> of
  \<open>DataTable\<close>.  An absent filter value (\<open>undefined\<close>) is \<open>None\<close>; an array and
  a \<open>Date\<close> object are always truthy.
\<close>

definition exactMatchFilter :: "row \<Rightarrow> string \<Rightarrow> jsval \<Rightarrow> bool" where
  "exactMatchFilter r colId v = strict_eq (getValue r colId) v"

definition multiSelectFilter :: "row \<Rightarrow> string \<Rightarrow> jsval list option \<Rightarrow> bool" where
  "multiSelectFilter r colId v =
     (case v of
        None \<Rightarrow> True
      | Some vs \<Rightarrow>
          if length vs = 0 then True
          else let cellValue = getValue r colId in array_includes vs cellValue)"


text \<open>
  \<open>new Date(v)\<close> for a primitive \<open>v\<close>.  A string goes through \<open>Date.parse\<close>, whose
  grammar is left to the engine: it is the parameter \<open>parse\<close> (\<open>None\<close> for \<open>NaN\<close>).
  A time value beyond 8.64e15 ms is clipped to \<open>NaN\<close>.
\<close>

definition time_clip :: "int \<Rightarrow> jsdate" where
  "time_clip t = (if \<bar>t\<bar> \<le> 8640000000000000 then Some t else None)"

fun new_Date :: "(string \<Rightarrow> int option) \<Rightarrow> jsval \<Rightarrow> jsdate" where
  "new_Date parse JUndefined = None"
| "new_Date parse JNull = Some 0"
| "new_Date parse (JBool b) = Some (if b then 1 else 0)"
| "new_Date parse (JNum n) = time_clip n"
| "new_Date parse JNaN = None"
| "new_Date parse (JStr s) = (case parse s of None \<Rightarrow> None | Some t \<Rightarrow> time_clip t)"

text \<open>\<open>a < b\<close> and \<open>a > b\<close> on time values: false as soon as one side is \<open>NaN\<close>.\<close>

fun num_lt :: "int option \<Rightarrow> int option \<Rightarrow> bool" where
  "num_lt (Some a) (Some b) = (a < b)"
| "num_lt _ _ = False"

definition num_gt :: "int option \<Rightarrow> int option \<Rightarrow> bool" where
  "num_gt a b = num_lt b a"

definition dateRangeFilter ::
  "(string \<Rightarrow> int option) \<Rightarrow> row \<Rightarrow> string \<Rightarrow> date_range option \<Rightarrow> bool" where
  "dateRangeFilter parse r colId v =
     (case v of
        None \<Rightarrow> True
      | Some rng \<Rightarrow>
          if range_from rng = None \<and> range_to rng = None then True
          else
            let cellValue = getValue r colId in
            if falsy cellValue then False
            else
              let cellDate = new_Date parse cellValue in
              if cellDate = None then False
              else if (case range_from rng of None \<Rightarrow> False | Some f \<Rightarrow> num_lt cellDate f)
                then False
              else if (case range_to rng of None \<Rightarrow> False | Some t \<Rightarrow> num_gt cellDate t)
                then False
              else True)"

section \<open>Binding predicates to columns\<close>

datatype filter_type = Text | Select | MultiSelect | DateRange | Number

record FilterConfig =
  columnId :: string
  ftype :: filter_type
  placeholder :: "string option"
  options :: "(string \<times> string) list option"
  label :: "string option"

text \<open>
  The \<open>filterFn\<close> property of a column: one of the three predicates of the component,
  or anything else the caller put there (\<open>OtherFn\<close>, opaque).  \<open>None\<close> is a column
  without the property, which the table library filters with its own default.
\<close>

datatype filter_fn = ExactMatchFn | MultiSelectFn | DateRangeFn | OtherFn string

text \<open>
  A column definition.  \<open>accessorKey\<close> holds \<open>String(accessorKey)\<close>; \<open>header\<close> stands
  for the properties that the spread \<open>...column\<close> copies unchanged.
\<close>

record ColumnDef =
  col_id :: "string option"
  accessorKey :: "string option"
  header :: "string option"
  filterFn :: "filter_fn option"

text \<open>
  \<open>processedColumns\<close> of \<open>DataTable\<close>: \<open>processColumn\<close> is the function mapped
  over the columns, \<open>columnIdsOf\<close> the set of declared ids of one filter type, and
  \<open>normalizedId = column.id ?? String(accessorKey)\<close>.
\<close>

definition normalizedId :: "ColumnDef \<Rightarrow> string option" where
  "normalizedId column =
     (case col_id column of
        Some i \<Rightarrow> Some i
      | None \<Rightarrow> (case accessorKey column of Some k \<Rightarrow> Some k | None \<Rightarrow> None))"

text \<open>\<open>normalizedId && ids.has(normalizedId)\<close>: an empty string is falsy.\<close>

definition id_in :: "string option \<Rightarrow> string set \<Rightarrow> bool" where
  "id_in nid ids = (case nid of None \<Rightarrow> False | Some i \<Rightarrow> i \<noteq> [] \<and> i \<in> ids)"

definition columnIdsOf :: "filter_type \<Rightarrow> FilterConfig list \<Rightarrow> string set" where
  "columnIdsOf t filters = set (map columnId (filter (\<lambda>f. ftype f = t) filters))"

definition processColumn :: "FilterConfig list \<Rightarrow> ColumnDef \<Rightarrow> ColumnDef" where
  "processColumn filters column =
     (let selectFilterColumnIds = columnIdsOf Select filters;
          multiSelectFilterColumnIds = columnIdsOf MultiSelect filters;
          dateRangeFilterColumnIds = columnIdsOf DateRange filters;
          nid = normalizedId column
      in if id_in nid selectFilterColumnIds then column\<lparr>filterFn := Some ExactMatchFn\<rparr>
         else if id_in nid multiSelectFilterColumnIds then column\<lparr>filterFn := Some MultiSelectFn\<rparr>
         else if id_in nid dateRangeFilterColumnIds then column\<lparr>filterFn := Some DateRangeFn\<rparr>
         else column)"

definition processedColumns :: "ColumnDef list \<Rightarrow> FilterConfig list \<Rightarrow> ColumnDef list" where
  "processedColumns columns filters = map (processColumn filters) columns"


section \<open>Table state and its change handlers\<close>

record table_state =
  sorting :: sorting_state
  columnFilters :: column_filters_state
  columnVisibility :: "(string \<times> bool) list"
  rowSelection :: "(string \<times> bool) list"
  pagination :: pagination_state

definition initial_state :: table_state where
  "initial_state =
     \<lparr>sorting = [], columnFilters = [], columnVisibility = [], rowSelection = [],
      pagination = \<lparr>pageIndex = 0, pageSize = 10\<rparr>\<rparr>"

text \<open>
  The table library hands a handler either the next value or a function of the old one:
  \<open>typeof updater === 'function' ? updater(old) : updater\<close>.
\<close>

datatype 'a updater = Value 'a | Updater "'a \<Rightarrow> 'a"

fun apply_updater :: "'a updater \<Rightarrow> 'a \<Rightarrow> 'a" where
  "apply_updater (Value v) old = v"
| "apply_updater (Updater f) old = f old"

text \<open>
  What a handler did: the state after the React setter, the delegate callbacks it called
  with their arguments, and the error that escaped to its caller, if any.  The handlers
  contain no \<open>try\<close>: what a callback throws leaves the handler.
\<close>

datatype call =
    SortingCall sorting_state
  | FiltersCall column_filters_state
  | PaginationCall pagination_state

record outcome =
  next_state :: table_state
  calls :: "call list"
  thrown :: "error option"

fun escaped :: "cb_result \<Rightarrow> error option" where
  "escaped Returned = None"
| "escaped (Threw e) = Some e"

text \<open>
  The handlers given to \<open>useReactTable\<close>.  A handler sees two states.  \<open>rendered\<close> is
  the state of the render that created the handler: the \<open>sorting\<close>, \<open>columnFilters\<close>
  and \<open>pagination\<close> of its closure, to which \<open>updater(sorting)\<close> applies the updater
  for the delegate callback.  \<open>queued\<close> is the state that React has pending when the
  handler runs, to which the React setter (\<open>setSoring(updater)\<close>) applies the updater;
  it is \<open>rendered\<close> for the first change after a render and the \<open>next_state\<close> of the
  previous handler for a later change of the same batch.
\<close>

definition table_onSortingChange ::
  "ServerSideConfig option \<Rightarrow> sorting_state updater \<Rightarrow> table_state \<Rightarrow> table_state \<Rightarrow> outcome" where
  "table_onSortingChange serverSide updater rendered queued =
     (let st' = queued\<lparr>sorting := apply_updater updater (sorting queued)\<rparr> in
      case opt_chain serverSide onSortingChange of
        None \<Rightarrow> \<lparr>next_state = st', calls = [], thrown = None\<rparr>
      | Some cb \<Rightarrow>
          let newSorting = apply_updater updater (sorting rendered) in
          \<lparr>next_state = st', calls = [SortingCall newSorting], thrown = escaped (cb newSorting)\<rparr>)"

definition table_onColumnFiltersChange ::
  "ServerSideConfig option \<Rightarrow> column_filters_state updater \<Rightarrow> table_state \<Rightarrow> table_state \<Rightarrow>
   outcome" where
  "table_onColumnFiltersChange serverSide updater rendered queued =
     (let st' = queued\<lparr>columnFilters := apply_updater updater (columnFilters queued)\<rparr> in
      case opt_chain serverSide onColumnFiltersChange of
        None \<Rightarrow> \<lparr>next_state = st', calls = [], thrown = None\<rparr>
      | Some cb \<Rightarrow>
          let newFilters = apply_updater updater (columnFilters rendered) in
          \<lparr>next_state = st', calls = [FiltersCall newFilters], thrown = escaped (cb newFilters)\<rparr>)"

definition table_onPaginationChange ::
  "ServerSideConfig option \<Rightarrow> pagination_state updater \<Rightarrow> table_state \<Rightarrow> table_state \<Rightarrow>
   outcome" where
  "table_onPaginationChange serverSide updater rendered queued =
     (let st' = queued\<lparr>pagination := apply_updater updater (pagination queued)\<rparr> in
      case opt_chain serverSide onPaginationChange of
        None \<Rightarrow> \<lparr>next_state = st', calls = [], thrown = None\<rparr>
      | Some cb \<Rightarrow>
          let newPagination = apply_updater updater (pagination rendered) in
          \<lparr>next_state = st', calls = [PaginationCall newPagination],
           thrown = escaped (cb newPagination)\<rparr>)"

text \<open>\<open>onColumnVisibilityChange: setColumnVisibility\<close>: the React setter alone.\<close>

definition table_onColumnVisibilityChange ::
  "(string \<times> bool) list updater \<Rightarrow> table_state \<Rightarrow> outcome" where
  "table_onColumnVisibilityChange updater queued =
     \<lparr>next_state = queued\<lparr>columnVisibility := apply_updater updater (columnVisibility queued)\<rparr>,
      calls = [], thrown = None\<rparr>"

text \<open>
  \<open>onRowSelectionChange: enableRowSelection ? setRowSelection : undefined\<close>: without
  the handler the library has nothing to call and the state stays.
\<close>

definition table_onRowSelectionChange ::
  "bool \<Rightarrow> (string \<times> bool) list updater \<Rightarrow> table_state \<Rightarrow> outcome" where
  "table_onRowSelectionChange enableRowSelection updater queued =
     (if enableRowSelection
      then \<lparr>next_state = queued\<lparr>rowSelection := apply_updater updater (rowSelection queued)\<rparr>,
            calls = [], thrown = None\<rparr>
      else \<lparr>next_state = queued, calls = [], thrown = None\<rparr>)"

text \<open>
  The locally filtered rows, \<open>getFilteredRowModel: !manualFiltering ? ... : undefined\<close>.
  How the table library evaluates one active filter on a row, given the bound columns
  (finding the column, running its predicate or the default of a column without one),
  is the parameter \<open>run\<close>; a row is kept when every active filter passes.  With
  \<open>manualFiltering\<close> the rows are the data as given.
\<close>

definition filteredRowModel ::
  "(ColumnDef list \<Rightarrow> row \<Rightarrow> string \<Rightarrow> filter_value \<Rightarrow> bool) \<Rightarrow>
   ServerSideConfig option \<Rightarrow> ColumnDef list \<Rightarrow> FilterConfig list \<Rightarrow> row list \<Rightarrow>
   table_state \<Rightarrow> row list" where
  "filteredRowModel run serverSide columns filters data st =
     (if table_manualFiltering serverSide then data
      else filter
             (\<lambda>r. list_all
                (\<lambda>(cid, v). run (processedColumns columns filters) r cid v)
                (columnFilters st))
             data)"

section \<open>The column filters of the table library\<close>

text \<open>
  The table library (\<open>@tanstack/react-table\<close>) is a dependency and not part of the
  sources.  What follows is the part of its column filtering that a filter input of
  the component reaches with a text: \<open>column.setFilterValue\<close> on a text, and the
  evaluation of one active filter on a row by \<open>getFilteredRowModel\<close>, with the
  default predicate of a column whose first row holds a number, \<open>inNumberRange\<close>.

  \<open>column.setFilterValue(text)\<close> for a column whose predicate is one of the library
  or of the component: an empty text removes the filter of the column, any other text
  replaces the value of its filter or appends a new filter.
\<close>

definition setFilterValue_text ::
  "string \<Rightarrow> string \<Rightarrow> column_filters_state \<Rightarrow> column_filters_state" where
  "setFilterValue_text cid txt old =
     (if txt = [] then filter (\<lambda>d. fst d \<noteq> cid) old
      else if cid \<in> fst ` set old
        then map (\<lambda>d. if fst d = cid then (cid, FString txt) else d) old
        else old @ [(cid, FString txt)])"

text \<open>\<open>parseFloat\<close> of a string of one character: a digit, or \<open>NaN\<close>.\<close>

definition parseFloat_char :: "char \<Rightarrow> jsnum" where
  "parseFloat_char c =
     (let k = (of_char c :: nat) in if 48 \<le> k \<and> k \<le> 57 then Fin (int k - 48) else NaN)"

text \<open>
  \<open>inNumberRange.resolveFilterValue\<close> on a text: \<open>let [unsafeMin, unsafeMax] = val\<close>
  takes the first two characters, a missing or unparsable one leaves its side open, and
  the two bounds are exchanged when the first is above the second.
\<close>

definition resolveFilterValue :: "string \<Rightarrow> jsnum \<times> jsnum" where
  "resolveFilterValue val =
     (let parsedMin = (case val of [] \<Rightarrow> NaN | c # _ \<Rightarrow> parseFloat_char c);
          parsedMax = (case val of [] \<Rightarrow> NaN | c # cs \<Rightarrow>
                         (case cs of [] \<Rightarrow> NaN | c' # _ \<Rightarrow> parseFloat_char c'));
          mn = (if parsedMin = NaN then NegInf else parsedMin);
          mx = (if parsedMax = NaN then PosInf else parsedMax)
      in if num_less mx mn then (mx, mn) else (mn, mx))"

text \<open>
  \<open>ToNumber\<close> of a cell, for \<open>rowValue >= min && rowValue <= max\<close>.  The number that
  a string converts to is the parameter \<open>strToNumber\<close>.
\<close>

fun toNumber :: "(string \<Rightarrow> jsnum) \<Rightarrow> jsval \<Rightarrow> jsnum" where
  "toNumber strToNumber JUndefined = NaN"
| "toNumber strToNumber JNull = Fin 0"
| "toNumber strToNumber (JBool b) = Fin (if b then 1 else 0)"
| "toNumber strToNumber (JNum n) = Fin n"
| "toNumber strToNumber JNaN = NaN"
| "toNumber strToNumber (JStr s) = strToNumber s"

definition inNumberRange ::
  "(string \<Rightarrow> jsnum) \<Rightarrow> row \<Rightarrow> string \<Rightarrow> jsnum \<times> jsnum \<Rightarrow> bool" where
  "inNumberRange strToNumber r cid rng =
     (let rowValue = toNumber strToNumber (getValue r cid)
      in num_le (fst rng) rowValue \<and> num_le rowValue (snd rng))"

text \<open>
  \<open>column.getAutoFilterFn\<close>: the default predicate of a column without \<open>filterFn\<close>
  is chosen by the type of the value in the first row.
\<close>

datatype auto_fn = AutoIncludesString | AutoInNumberRange | AutoEquals | AutoWeakEquals

definition getAutoFilterFn :: "row list \<Rightarrow> string \<Rightarrow> auto_fn" where
  "getAutoFilterFn data cid =
     (case data of
        [] \<Rightarrow> AutoWeakEquals
      | firstRow # _ \<Rightarrow>
          (case getValue firstRow cid of
             JStr _ \<Rightarrow> AutoIncludesString
           | JNum _ \<Rightarrow> AutoInNumberRange
           | JNaN \<Rightarrow> AutoInNumberRange
           | JBool _ \<Rightarrow> AutoEquals
           | _ \<Rightarrow> AutoWeakEquals))"

text \<open>
  One active filter on one row.  A filter whose id names no column is skipped.  A column
  bound to a predicate of the component runs it on a value of the shape the predicate
  declares; a column without \<open>filterFn\<close> whose default is \<open>inNumberRange\<close> runs it on
  the resolved text.  The lookup of a column by id is the parameter \<open>getColumn\<close>, and
  every other combination of predicate and value is the parameter \<open>other\<close>.
\<close>

definition libraryRun ::
  "(ColumnDef list \<Rightarrow> string \<Rightarrow> ColumnDef option) \<Rightarrow> (string \<Rightarrow> int option) \<Rightarrow>
   (string \<Rightarrow> jsnum) \<Rightarrow> (ColumnDef \<Rightarrow> row \<Rightarrow> string \<Rightarrow> filter_value \<Rightarrow> bool) \<Rightarrow>
   row list \<Rightarrow> ColumnDef list \<Rightarrow> row \<Rightarrow> string \<Rightarrow> filter_value \<Rightarrow> bool" where
  "libraryRun getColumn parse strToNumber other data cols r cid v =
     (case getColumn cols cid of
        None \<Rightarrow> True
      | Some c \<Rightarrow>
          (case filterFn c of
             None \<Rightarrow>
               (case v of
                  FString s \<Rightarrow>
                    if getAutoFilterFn data cid = AutoInNumberRange
                    then inNumberRange strToNumber r cid (resolveFilterValue s)
                    else other c r cid v
                | _ \<Rightarrow> other c r cid v)
           | Some ExactMatchFn \<Rightarrow>
               (case v of FString s \<Rightarrow> exactMatchFilter r cid (JStr s) | _ \<Rightarrow> other c r cid v)
           | Some MultiSelectFn \<Rightarrow>
               (case v of FArray vs \<Rightarrow> multiSelectFilter r cid (Some vs) | _ \<Rightarrow> other c r cid v)
           | Some DateRangeFn \<Rightarrow>
               (case v of FRange rng \<Rightarrow> dateRangeFilter parse r cid (Some rng)
                | _ \<Rightarrow> other c r cid v)
           | Some (OtherFn name) \<Rightarrow> other c r cid v))"

section \<open>Filter controls\<close>

text \<open>
  The control that \<open>renderFilter\<close> draws for a declaration, with the key, the value it
  shows and, for the text input, whether it is disabled.  \<open>table.getColumn\<close> belongs to
  the table library and is the parameter \<open>getColumn\<close>; \<open>column.getFilterValue()\<close>
  is the entry of the column in \<open>columnFilters\<close>.  Two controls can throw while they
  are drawn: the multi-select menu calls \<open>currentFilterValue.includes\<close> for each
  option, which a range object does not have, and the date-range button formats its
  bounds with \<open>format\<close>, which throws on an invalid date.
\<close>

datatype control =
    TextInput string filter_value bool
  | SelectBox string filter_value
  | NumberInput string filter_value
  | MultiSelectMenu string filter_value
  | DateRangePicker string filter_value bool

definition getFilterValue :: "table_state \<Rightarrow> string \<Rightarrow> filter_value option" where
  "getFilterValue st cid = map_of (columnFilters st) cid"

text \<open>\<open>v || d\<close> on a filter value: only \<open>undefined\<close> and the empty string are falsy.\<close>

fun or_default :: "filter_value option \<Rightarrow> filter_value \<Rightarrow> filter_value" where
  "or_default None d = d"
| "or_default (Some (FString s)) d = (if s = [] then d else FString s)"
| "or_default (Some v) d = v"

fun has_bound :: "filter_value \<Rightarrow> bool" where
  "has_bound (FRange rng) = (range_from rng \<noteq> None \<or> range_to rng \<noteq> None)"
| "has_bound _ = False"

text \<open>
  \<open>checked={currentFilterValue.includes(option.value)}\<close> is evaluated once for each
  option: with a range object as value and at least one option it is a \<open>TypeError\<close>.
\<close>

fun includes_throws :: "filter_value \<Rightarrow> (string \<times> string) list option \<Rightarrow> bool" where
  "includes_throws (FRange rng) (Some (opt # opts)) = True"
| "includes_throws _ _ = False"

text \<open>
  The label of the date-range button: \<open>format\<close> is called on \<open>from\<close> when it is
  present, and then on \<open>to\<close> when that is present too.
\<close>

fun format_throws :: "filter_value \<Rightarrow> bool" where
  "format_throws (FRange rng) =
     (case range_from rng of
        None \<Rightarrow> False
      | Some None \<Rightarrow> True
      | Some (Some f) \<Rightarrow> (case range_to rng of Some None \<Rightarrow> True | _ \<Rightarrow> False))"
| "format_throws _ = False"

definition renderFilter ::
  "(string \<Rightarrow> ColumnDef option) \<Rightarrow> ServerSideConfig option \<Rightarrow> table_state \<Rightarrow>
   FilterConfig \<Rightarrow> error + control option" where
  "renderFilter getColumn serverSide st flt =
     (case getColumn (columnId flt) of
        None \<Rightarrow> Inr None
      | Some column \<Rightarrow>
          (case ftype flt of
             Text \<Rightarrow>
               Inr (Some (TextInput (columnId flt)
                       (nullish (getFilterValue st (columnId flt)) (FString []))
                       (or_false (opt_chain serverSide loading))))
           | Select \<Rightarrow>
               Inr (Some (SelectBox (columnId flt)
                       (nullish (getFilterValue st (columnId flt)) (FString ''all''))))
           | Number \<Rightarrow>
               Inr (Some (NumberInput (columnId flt)
                       (nullish (getFilterValue st (columnId flt)) (FString []))))
           | MultiSelect \<Rightarrow>
               (let currentFilterValue = or_default (getFilterValue st (columnId flt)) (FArray [])
                in if includes_throws currentFilterValue (options flt)
                   then Inl (Error ''TypeError'')
                   else Inr (Some (MultiSelectMenu (columnId flt) currentFilterValue)))
           | DateRange \<Rightarrow>
               (let dateRangeValue =
                      or_default (getFilterValue st (columnId flt))
                        (FRange \<lparr>range_from = None, range_to = None\<rparr>)
                in if format_throws dateRangeValue
                   then Inl (Error ''RangeError'')
                   else Inr (Some (DateRangePicker (columnId flt) dateRangeValue
                                     (has_bound dateRangeValue))))))"

text \<open>
  The change handler of the number input,
  \<open>onChange={(event) => column.setFilterValue(event.target.value)}\<close>: the text of the
  input goes to the library as it is, which turns it into this update of the column
  filters.  The column is the one found under \<open>filter.columnId\<close>.
\<close>

definition number_onChange :: "string \<Rightarrow> string \<Rightarrow> column_filters_state updater" where
  "number_onChange cid input = Updater (setFilterValue_text cid input)"

section \<open>Sorting and paging in the users route\<close>

text \<open>
  \<open>sortUsers\<close> and the page slice of \<open>GET\<close> in \<open>src/app/api/users/route.ts\<close>.
  What the engine decides is a parameter: the collation of \<open>localeCompare\<close>, the
  grammar of \<open>Date.parse\<close>, the digits that \<open>String\<close> prints for a number from
  \<open>2^53\<close> on, and the order that \<open>Array.prototype.sort\<close> produces for a comparator
  that is not consistent.
\<close>

record js_engine =
  localeCompare :: "string \<Rightarrow> string \<Rightarrow> int"
  dateParse :: "string \<Rightarrow> int option"
  bigNumberToString :: "int \<Rightarrow> string"
  sortInconsistent :: "(row \<Rightarrow> row \<Rightarrow> jsnum) \<Rightarrow> row list \<Rightarrow> row list"

text \<open>Decimal digits of a number, for \<open>String(v)\<close>.\<close>

fun string_of_nat :: "nat \<Rightarrow> string" where
  "string_of_nat n =
     (if n < 10 then [char_of (48 + n)]
      else string_of_nat (n div 10) @ [char_of (48 + n mod 10)])"

definition string_of_int :: "int \<Rightarrow> string" where
  "string_of_int i = (if i < 0 then CHR ''-'' # string_of_nat (nat (- i)) else string_of_nat (nat i))"

fun js_String :: "(int \<Rightarrow> string) \<Rightarrow> jsval \<Rightarrow> string" where
  "js_String big JUndefined = ''undefined''"
| "js_String big JNull = ''null''"
| "js_String big (JBool b) = (if b then ''true'' else ''false'')"
| "js_String big (JNum n) = (if \<bar>n\<bar> < 2 ^ 53 then string_of_int n else big n)"
| "js_String big JNaN = ''NaN''"
| "js_String big (JStr s) = s"

text \<open>\<open>typeof v === 'number'\<close> holds for \<open>NaN\<close> too.\<close>

fun as_number :: "jsval \<Rightarrow> jsnum option" where
  "as_number (JNum n) = Some (Fin n)"
| "as_number JNaN = Some NaN"
| "as_number _ = None"

text \<open>\<open>date.getTime()\<close> as a number.\<close>

fun time_num :: "jsdate \<Rightarrow> jsnum" where
  "time_num None = NaN"
| "time_num (Some t) = Fin t"

text \<open>The comparator of \<open>sortUsers\<close>.\<close>

definition compareUsers :: "js_engine \<Rightarrow> string \<Rightarrow> row \<Rightarrow> row \<Rightarrow> jsnum" where
  "compareUsers eng sortBy a b =
     (let aVal = getValue a sortBy; bVal = getValue b sortBy in
      case (aVal, bVal) of
        (JStr x, JStr y) \<Rightarrow> Fin (localeCompare eng x y)
      | _ \<Rightarrow>
         (case (as_number aVal, as_number bVal) of
            (Some x, Some y) \<Rightarrow> num_sub x y
          | _ \<Rightarrow>
             if sortBy = ''createdAt''
             then num_sub (time_num (new_Date (dateParse eng) aVal))
                    (time_num (new_Date (dateParse eng) bVal))
             else Fin (localeCompare eng (js_String (bigNumberToString eng) aVal)
                         (js_String (bigNumberToString eng) bVal))))"

text \<open>
  How the sort reads the result of the comparator: \<open>a\<close> stays before \<open>b\<close> unless
  the result is positive, and \<open>NaN\<close> counts as \<open>0\<close>.
\<close>

fun cmp_le :: "jsnum \<Rightarrow> bool" where
  "cmp_le NaN = True"
| "cmp_le NegInf = True"
| "cmp_le (Fin v) = (v \<le> 0)"
| "cmp_le PosInf = False"

fun cmp_sgn :: "jsnum \<Rightarrow> int" where
  "cmp_sgn NaN = 0"
| "cmp_sgn NegInf = - 1"
| "cmp_sgn (Fin v) = sgn v"
| "cmp_sgn PosInf = 1"

text \<open>
  A comparator is consistent on a set of rows when it never returns \<open>NaN\<close>,
  exchanging its arguments flips the sign of its result, and the order it induces is
  transitive.  For such a comparator the language fixes the result of the sort: the
  sorted order in which rows that tie keep their order.
\<close>

definition consistent_on :: "('a \<Rightarrow> 'a \<Rightarrow> jsnum) \<Rightarrow> 'a set \<Rightarrow> bool" where
  "consistent_on cmp S =
     ((\<forall>a \<in> S. \<forall>b \<in> S. cmp a b \<noteq> NaN)
      \<and> (\<forall>a \<in> S. \<forall>b \<in> S. cmp_sgn (cmp b a) = - cmp_sgn (cmp a b))
      \<and> (\<forall>a \<in> S. \<forall>b \<in> S. \<forall>c \<in> S.
            cmp_le (cmp a b) \<and> cmp_le (cmp b c) \<longrightarrow> cmp_le (cmp a c)))"

text \<open>Two rows tie when the comparator puts neither strictly before the other.\<close>

definition ties :: "('a \<Rightarrow> 'a \<Rightarrow> jsnum) \<Rightarrow> 'a \<Rightarrow> 'a \<Rightarrow> bool" where
  "ties cmp k y = (cmp_le (cmp k y) \<and> cmp_le (cmp y k))"

fun sort_insert :: "('a \<Rightarrow> 'a \<Rightarrow> jsnum) \<Rightarrow> 'a \<Rightarrow> 'a list \<Rightarrow> 'a list" where
  "sort_insert cmp x [] = [x]"
| "sort_insert cmp x (y # ys) =
     (if cmp_le (cmp x y) then x # y # ys else y # sort_insert cmp x ys)"

definition stable_sort :: "('a \<Rightarrow> 'a \<Rightarrow> jsnum) \<Rightarrow> 'a list \<Rightarrow> 'a list" where
  "stable_sort cmp xs = foldr (sort_insert cmp) xs []"

text \<open>
  \<open>Array.prototype.sort\<close>: the stable sorted order for a comparator that is
  consistent on the elements, and the order the engine chooses, the parameter
  \<open>inconsistent\<close>, for any other.
\<close>

definition js_sort ::
  "(('a \<Rightarrow> 'a \<Rightarrow> jsnum) \<Rightarrow> 'a list \<Rightarrow> 'a list) \<Rightarrow> ('a \<Rightarrow> 'a \<Rightarrow> jsnum) \<Rightarrow> 'a list \<Rightarrow> 'a list" where
  "js_sort inconsistent cmp xs =
     (if consistent_on cmp (set xs) then stable_sort cmp xs else inconsistent cmp xs)"

definition sortUsers ::
  "js_engine \<Rightarrow> row list \<Rightarrow> string option \<Rightarrow> string option \<Rightarrow> row list" where
  "sortUsers eng users sortBy sortOrder =
     (case sortBy of
        None \<Rightarrow> users
      | Some sb \<Rightarrow>
          if sb = [] then users
          else
            let sorted = js_sort (sortInconsistent eng) (compareUsers eng sb) users in
            if sortOrder = Some ''desc'' then rev sorted else sorted)"

text \<open>
  \<open>Array.prototype.slice(start, end)\<close>: \<open>NaN\<close> counts as \<open>0\<close>, a negative index
  counts from the end, and both ends are clamped to the array.
\<close>

fun rel_index :: "jsnum \<Rightarrow> nat \<Rightarrow> nat" where
  "rel_index NaN len = 0"
| "rel_index NegInf len = 0"
| "rel_index PosInf len = len"
| "rel_index (Fin k) len =
     (if k < 0 then nat (max (int len + k) 0) else nat (min k (int len)))"

definition js_slice :: "'a list \<Rightarrow> jsnum \<Rightarrow> jsnum \<Rightarrow> 'a list" where
  "js_slice xs start fin =
     (let k = rel_index start (length xs); final = rel_index fin (length xs)
      in take (final - k) (drop k xs))"

text \<open>
  The page of \<open>GET\<close>.  \<open>page\<close> and \<open>pageSize\<close> are results of \<open>parseInt\<close>: \<open>NaN\<close>,
  a finite double with an integer value, or an infinity for a long enough text of
  digits.
\<close>

definition paginatedUsers :: "'a list \<Rightarrow> jsnum \<Rightarrow> jsnum \<Rightarrow> 'a list" where
  "paginatedUsers filteredUsers page pgSize =
     (let startIndex = num_mul page pgSize;
          endIndex = num_add startIndex pgSize
      in js_slice filteredUsers startIndex endIndex)"

section \<open>Properties of the numbers\<close>

lemma bit_length_lower: "0 < n \<Longrightarrow> 2 ^ (bit_length n - 1) \<le> n"
proof (induction n rule: bit_length.induct)
  case (1 n)
  show ?case
  proof (cases "n div 2 = 0")
    case True
    then have "bit_length (n div 2) = 0" by (simp add: bit_length.simps)
    then show ?thesis using "1.prems" by (simp add: bit_length.simps [of n])
  next
    case False
    then have pos: "0 < n div 2" by simp
    have ih: "2 ^ (bit_length (n div 2) - 1) \<le> n div 2"
      using "1.IH" "1.prems" pos by simp
    have bl: "bit_length (n div 2) \<noteq> 0"
      using pos by (simp add: bit_length.simps [of "n div 2"])
    have "bit_length n - 1 = Suc (bit_length (n div 2) - 1)"
      using "1.prems" bl by (simp add: bit_length.simps [of n])
    then have "(2::nat) ^ (bit_length n - 1) = 2 * 2 ^ (bit_length (n div 2) - 1)" by simp
    also have "\<dots> \<le> 2 * (n div 2)" using ih by simp
    also have "\<dots> \<le> n" by simp
    finally show ?thesis .
  qed
qed

lemma bit_length_upper: "n < 2 ^ bit_length n"
proof (induction n rule: bit_length.induct)
  case (1 n)
  show ?case
  proof (cases "n = 0")
    case True
    then show ?thesis by simp
  next
    case False
    then have "n div 2 < 2 ^ bit_length (n div 2)" using "1.IH" by simp
    then have "n < 2 * 2 ^ bit_length (n div 2)" by linarith
    then show ?thesis using False by (simp add: bit_length.simps [of n])
  qed
qed

lemma bit_length_ge: "2 ^ k \<le> n \<Longrightarrow> k < bit_length n"
proof -
  assume "2 ^ k \<le> n"
  then have "(2::nat) ^ k < 2 ^ bit_length n" using bit_length_upper [of n] by linarith
  then show ?thesis by simp
qed

lemma round_double_small: "\<bar>n\<bar> < 2 ^ 53 \<Longrightarrow> round_double n = Fin n"
  by (simp add: round_double_def Let_def nat_less_iff)

lemma round_double_big:
  assumes "2 ^ 53 \<le> n"
  shows "round_double n = PosInf \<or> (\<exists>v. round_double n = Fin v \<and> 2 ^ 53 \<le> v)"
proof -
  define m where "m = nat \<bar>n\<bar>"
  define e where "e = bit_length m - 53"
  define q where "q = m div 2 ^ e"
  define r where "r = m mod 2 ^ e"
  define q' where "q' = (if 2 ^ e < 2 * r \<or> (2 * r = 2 ^ e \<and> odd q) then q + 1 else q)"
  define v where "v = q' * 2 ^ e"
  have npos: "0 \<le> n" using assms by (smt (verit) zero_le_power)
  have m: "(2::nat) ^ 53 \<le> m"
  proof -
    have "(2::int) ^ 53 \<le> int m" using assms npos by (simp add: m_def)
    then show ?thesis by (metis of_nat_le_iff of_nat_numeral of_nat_power)
  qed
  have bl: "53 < bit_length m" using bit_length_ge [OF m] .
  have e1: "1 \<le> e" using bl by (simp add: e_def)
  have "0 < m" using m by (smt (verit) not_gr_zero power_eq_0_iff zero_neq_numeral le_zero_eq)
  then have "2 ^ (bit_length m - 1) \<le> m" by (rule bit_length_lower)
  moreover have "bit_length m - 1 = 52 + e" using bl by (simp add: e_def)
  ultimately have "(2::nat) ^ 52 * 2 ^ e \<le> m" by (simp add: power_add)
  then have "(2::nat) ^ 52 \<le> q"
    unfolding q_def by (metis div_mult_self_is_m le_div_geq less_eq_div_iff_mult_less_eq power_eq_0_iff zero_less_numeral zero_less_power zero_neq_numeral div_le_mono nonzero_mult_div_cancel_right)
  moreover have "q \<le> q'" by (simp add: q'_def)
  ultimately have "(2::nat) ^ 52 \<le> q'" by linarith
  then have "(2::nat) ^ 52 * 2 ^ e \<le> v" by (simp add: v_def)
  moreover have "(2::nat) ^ 1 \<le> 2 ^ e"
    using e1 by (intro power_increasing) simp_all
  ultimately have v53: "(2::nat) ^ 53 \<le> v"
  proof -
    assume a: "(2::nat) ^ 52 * 2 ^ e \<le> v" and b: "(2::nat) ^ 1 \<le> 2 ^ e"
    have "(2::nat) ^ 53 = 2 ^ 52 * 2 ^ 1" by simp
    also have "\<dots> \<le> 2 ^ 52 * 2 ^ e" using b by (intro mult_left_mono) simp_all
    finally show ?thesis using a by linarith
  qed
  have notsmall: "\<not> m < 2 ^ 53" using m by simp
  have "round_double n = (if 2 ^ 1024 \<le> v then PosInf else Fin (int v))"
    using notsmall npos
    unfolding round_double_def Let_def m_def [symmetric] e_def [symmetric] q_def [symmetric]
      r_def [symmetric] q'_def [symmetric] v_def [symmetric]
    by (simp add: not_less [symmetric])
  moreover have "(2::int) ^ 53 \<le> int v"
    using v53 by (metis of_nat_le_iff of_nat_numeral of_nat_power)
  ultimately show ?thesis by auto
qed

section \<open>Properties of the mode flags\<close>

text \<open>
  Claim C1.  For each of pagination, sorting and filtering, the effective manual flag is
  the sub-flag of the configuration when it is given and the top-level \<open>enabled\<close> flag
  otherwise (\<open>False\<close> when there is no server-side configuration at all).  The three
  flags are functions of the configuration alone.
\<close>

theorem C1_effective_flags:
  "table_manualPagination serverSide =
     (case serverSide of None \<Rightarrow> False
      | Some c \<Rightarrow> (case manualPagination c of Some b \<Rightarrow> b | None \<Rightarrow> enabled c))
   \<and> table_manualSorting serverSide =
     (case serverSide of None \<Rightarrow> False
      | Some c \<Rightarrow> (case manualSorting c of Some b \<Rightarrow> b | None \<Rightarrow> enabled c))
   \<and> table_manualFiltering serverSide =
     (case serverSide of None \<Rightarrow> False
      | Some c \<Rightarrow> (case manualFiltering c of Some b \<Rightarrow> b | None \<Rightarrow> enabled c))"
  by (simp add: table_manualPagination_def table_manualSorting_def table_manualFiltering_def
      isServerSide_def split: option.splits)

section \<open>Properties of the filter predicates\<close>

lemma sameValueZero_eq: "sameValueZero a b = (a = b)"
  by (cases a; cases b) auto

lemma array_includes_set: "array_includes vs v = (v \<in> set vs)"
  by (induction vs) (auto simp: sameValueZero_eq)

lemma strict_eq_iff: "strict_eq a b = (a = b \<and> a \<noteq> JNaN)"
  by (cases a; cases b) auto

text \<open>
  Claim C3.  The multi-select predicate keeps every row when the filter value is absent
  or the empty array; for a non-empty array it keeps a row exactly when the cell value
  is one of the selected values.
\<close>

theorem C3_multiSelect:
  "multiSelectFilter r c None
   \<and> multiSelectFilter r c (Some [])
   \<and> (vs \<noteq> [] \<longrightarrow> multiSelectFilter r c (Some vs) = (getValue r c \<in> set vs))"
  by (simp add: multiSelectFilter_def array_includes_set)

theorem C3_multiSelect_witness:
  "[JStr ''Admin''] \<noteq> []
   \<and> multiSelectFilter [(''role'', JStr ''Admin''), (''age'', JNum 30)] ''role'' (Some [JStr ''Admin''])
   \<and> \<not> multiSelectFilter [(''role'', JStr ''User''), (''age'', JNum 22)] ''role'' (Some [JStr ''Admin''])"
  using C3_multiSelect [of "[(''role'', JStr ''Admin''), (''age'', JNum 30)]" "''role''" "[JStr ''Admin'']"]
    C3_multiSelect [of "[(''role'', JStr ''User''), (''age'', JNum 22)]" "''role''" "[JStr ''Admin'']"]
  by (simp add: getValue_def)

text \<open>
  Claim C10.  The predicate of a select filter is \<open>===\<close> on the raw cell value: it
  holds only when cell and filter value are the same value of the same type (and are
  not \<open>NaN\<close>), so a cell holding a number never matches a string and strings match
  only letter for letter.  Every column whose identifier is targeted by a select
  declaration is bound to this predicate.
\<close>

theorem C10_exactMatch:
  "exactMatchFilter r c v = (getValue r c = v \<and> v \<noteq> JNaN)
   \<and> (getValue r c = JNum n \<longrightarrow> \<not> exactMatchFilter r c (JStr s))
   \<and> (exactMatchFilter r c (JStr s) \<longrightarrow> getValue r c = JStr s)
   \<and> (id_in (normalizedId column) (columnIdsOf Select filters) \<longrightarrow>
        filterFn (processColumn filters column) = Some ExactMatchFn)
   \<and> (\<forall>i < length columns.
        id_in (normalizedId (columns ! i)) (columnIdsOf Select filters) \<longrightarrow>
        filterFn (processedColumns columns filters ! i) = Some ExactMatchFn)"
  by (auto simp: exactMatchFilter_def strict_eq_iff processColumn_def processedColumns_def Let_def)

theorem C10_exactMatch_witness:
  "getValue [(''age'', JNum 30)] ''age'' = JNum 30
   \<and> \<not> exactMatchFilter [(''age'', JNum 30)] ''age'' (JStr ''30'')
   \<and> exactMatchFilter [(''status'', JStr ''Active'')] ''status'' (JStr ''Active'')
   \<and> \<not> exactMatchFilter [(''status'', JStr ''Active'')] ''status'' (JStr ''active'')
   \<and> id_in (normalizedId \<lparr>col_id = None, accessorKey = Some ''status'', header = None, filterFn = None\<rparr>)
        (columnIdsOf Select
           [\<lparr>columnId = ''status'', ftype = Select, placeholder = None, options = None, label = None\<rparr>])
   \<and> filterFn
        (processColumn
           [\<lparr>columnId = ''status'', ftype = Select, placeholder = None, options = None, label = None\<rparr>]
           \<lparr>col_id = None, accessorKey = Some ''status'', header = None, filterFn = None\<rparr>)
       = Some ExactMatchFn"
proof -
  let ?col = "\<lparr>col_id = None, accessorKey = Some ''status'', header = None, filterFn = None\<rparr>"
  let ?fs = "[\<lparr>columnId = ''status'', ftype = Select, placeholder = None, options = None, label = None\<rparr>]"
  let ?r = "[(''status'', JStr ''Active'')]"
  have cell: "getValue [(''age'', JNum 30)] ''age'' = JNum 30"
    by (simp add: getValue_def)
  have status: "getValue ?r ''status'' = JStr ''Active''"
    by (simp add: getValue_def)
  have targeted: "id_in (normalizedId ?col) (columnIdsOf Select ?fs)"
    by (simp add: normalizedId_def id_in_def columnIdsOf_def)
  note inst = C10_exactMatch [where r = "[(''age'', JNum 30)]" and c = "''age''" and n = 30
      and s = "''30''" and column = ?col and filters = ?fs]
  from inst cell have a: "\<not> exactMatchFilter [(''age'', JNum 30)] ''age'' (JStr ''30'')"
    by blast
  from inst targeted have b: "filterFn (processColumn ?fs ?col) = Some ExactMatchFn"
    by blast
  have c: "exactMatchFilter ?r ''status'' (JStr ''Active'')"
    using C10_exactMatch [where r = ?r and c = "''status''" and v = "JStr ''Active''"] status
    by simp
  have d: "\<not> exactMatchFilter ?r ''status'' (JStr ''active'')"
    using C10_exactMatch [where r = ?r and c = "''status''" and s = "''active''"] status
    by auto
  from a b c d show ?thesis
    using cell targeted by blast
qed

lemma num_lt_self: "\<not> num_lt a a"
  by (cases a) simp_all

text \<open>
  Claim C4, as the code has it.  The date-range predicate never fails: it is a total
  function.  Without a filter value, or with a value that has neither bound, it keeps
  every row, whatever the cell holds.  With at least one bound it keeps a row exactly
  when the cell is not empty (falsy), parses to a valid date, is not before \<open>from\<close>
  and not after \<open>to\<close>; an absent bound restricts nothing, a date equal to a bound is
  kept, and an empty or unparsable cell is dropped.
\<close>

theorem C4_dateRange:
  "dateRangeFilter parse r c None
   \<and> dateRangeFilter parse r c (Some \<lparr>range_from = None, range_to = None\<rparr>)
   \<and> (range_from rng \<noteq> None \<or> range_to rng \<noteq> None \<longrightarrow>
        dateRangeFilter parse r c (Some rng) =
          (\<not> falsy (getValue r c)
           \<and> new_Date parse (getValue r c) \<noteq> None
           \<and> (\<forall>f. range_from rng = Some f \<longrightarrow> \<not> num_lt (new_Date parse (getValue r c)) f)
           \<and> (\<forall>t. range_to rng = Some t \<longrightarrow> \<not> num_lt t (new_Date parse (getValue r c)))))
   \<and> (\<not> falsy (getValue r c) \<and> new_Date parse (getValue r c) = Some d \<longrightarrow>
        dateRangeFilter parse r c (Some \<lparr>range_from = Some (Some d), range_to = None\<rparr>)
        \<and> dateRangeFilter parse r c (Some \<lparr>range_from = None, range_to = Some (Some d)\<rparr>)
        \<and> dateRangeFilter parse r c (Some \<lparr>range_from = Some (Some d), range_to = Some (Some d)\<rparr>)
        \<and> dateRangeFilter parse r c (Some \<lparr>range_from = Some (Some lo), range_to = None\<rparr>) = (lo \<le> d)
        \<and> dateRangeFilter parse r c (Some \<lparr>range_from = None, range_to = Some (Some hi)\<rparr>) = (d \<le> hi)
        \<and> dateRangeFilter parse r c (Some \<lparr>range_from = Some (Some lo), range_to = Some (Some hi)\<rparr>)
            = (lo \<le> d \<and> d \<le> hi))
   \<and> ((range_from rng \<noteq> None \<or> range_to rng \<noteq> None)
        \<and> (falsy (getValue r c) \<or> new_Date parse (getValue r c) = None) \<longrightarrow>
        \<not> dateRangeFilter parse r c (Some rng))"
  by (auto simp: dateRangeFilter_def Let_def num_gt_def num_lt_self split: option.splits)

theorem C4_dateRange_witness:
  "(let parse = (\<lambda>s. if s = ''2024-01-05'' then Some 1704412800000 else None);
        r = [(''createdAt'', JStr ''2024-01-05'')];
        bad = [(''createdAt'', JStr ''soon'')]
    in \<not> falsy (getValue r ''createdAt'')
       \<and> new_Date parse (getValue r ''createdAt'') = Some 1704412800000
       \<and> dateRangeFilter parse r ''createdAt''
            (Some \<lparr>range_from = Some (Some 1704412800000), range_to = Some (Some 1704412800000)\<rparr>)
       \<and> new_Date parse (getValue bad ''createdAt'') = None
       \<and> \<not> dateRangeFilter parse bad ''createdAt''
            (Some \<lparr>range_from = Some (Some 0), range_to = None\<rparr>))"
  using C4_dateRange [where parse = "\<lambda>s. if s = ''2024-01-05'' then Some 1704412800000 else None"
      and r = "[(''createdAt'', JStr ''2024-01-05'')]" and c = "''createdAt''"
      and d = 1704412800000]
    C4_dateRange [where parse = "\<lambda>s. if s = ''2024-01-05'' then Some 1704412800000 else None"
      and r = "[(''createdAt'', JStr ''soon'')]" and c = "''createdAt''"
      and rng = "\<lparr>range_from = Some (Some 0), range_to = None\<rparr>"]
  by (simp add: getValue_def time_clip_def Let_def)

text \<open>
  Claim C4 as it is written fails where the filter value has no bound at all: the
  predicate returns before it reads the cell, so a row whose cell is no date is kept.
\<close>

theorem C4_dateRange_counterexample:
  "new_Date (\<lambda>s. None) (JStr ''not a date'') = None
   \<and> dateRangeFilter (\<lambda>s. None) [(''createdAt'', JStr ''not a date'')] ''createdAt''
        (Some \<lparr>range_from = None, range_to = None\<rparr>)"
  by (simp add: dateRangeFilter_def)

section \<open>Properties of the binder and the controls\<close>

lemma columnIdsOf_remove:
  "columnIdsOf t (fs1 @ d # fs2) =
     (if ftype d = t then insert (columnId d) (columnIdsOf t (fs1 @ fs2)) else columnIdsOf t (fs1 @ fs2))"
  by (auto simp: columnIdsOf_def)

lemma id_in_insert:
  "nid \<noteq> Some x \<Longrightarrow> id_in nid (insert x ids) = id_in nid ids"
  by (cases nid) (auto simp: id_in_def)

lemma processColumn_unmatched:
  assumes "normalizedId column \<noteq> Some (columnId d)"
  shows "processColumn (fs1 @ d # fs2) column = processColumn (fs1 @ fs2) column"
  using assms by (simp add: processColumn_def columnIdsOf_remove id_in_insert Let_def)

lemma processColumn_no_filters: "processColumn [] column = column"
  by (simp add: processColumn_def columnIdsOf_def id_in_def Let_def split: option.splits)

text \<open>
  Claim C8.  A declaration whose \<open>columnId\<close> is the identifier of no column, and for
  which the table finds no column, does nothing: the bound columns are the same with
  and without it, alone it leaves every column as it was, and no control is drawn for
  it.  Nothing is thrown: the binder is total and the control is \<open>null\<close>, not an error.
\<close>

theorem C8_unmatched_declaration:
  assumes "\<forall>column \<in> set columns. normalizedId column \<noteq> Some (columnId d)"
    and "getColumn (columnId d) = None"
  shows "processedColumns columns (fs1 @ d # fs2) = processedColumns columns (fs1 @ fs2)
         \<and> processedColumns columns [d] = columns
         \<and> renderFilter getColumn serverSide st d = Inr None"
proof -
  have a: "processedColumns columns (fs1 @ d # fs2) = processedColumns columns (fs1 @ fs2)"
    using assms(1) by (simp add: processedColumns_def processColumn_unmatched)
  have "\<forall>column \<in> set columns. processColumn [d] column = column"
    using assms(1) processColumn_unmatched [where ?fs1.0 = "[]" and ?fs2.0 = "[]" and d = d]
    by (simp add: processColumn_no_filters)
  then have b: "processedColumns columns [d] = columns"
    unfolding processedColumns_def by (induction columns) simp_all
  have c: "renderFilter getColumn serverSide st d = Inr None"
    using assms(2) by (simp add: renderFilter_def)
  from a b c show ?thesis by blast
qed

theorem C8_unmatched_declaration_witness:
  "(let columns = [\<lparr>col_id = None, accessorKey = Some ''role'', header = None, filterFn = None\<rparr>];
        d = \<lparr>columnId = ''rank'', ftype = Select, placeholder = None, options = None, label = None\<rparr>;
        f = \<lparr>columnId = ''role'', ftype = MultiSelect, placeholder = None, options = None, label = None\<rparr>;
        getColumn = (\<lambda>i. if i = ''role'' then Some (hd columns) else None)
    in (\<forall>column \<in> set columns. normalizedId column \<noteq> Some (columnId d))
       \<and> getColumn (columnId d) = None
       \<and> processedColumns columns [f, d] = processedColumns columns [f]
       \<and> processedColumns columns [d] = columns
       \<and> renderFilter getColumn None initial_state d = Inr None
       \<and> renderFilter getColumn None initial_state f \<noteq> Inr None)"
  using C8_unmatched_declaration
    [where columns = "[\<lparr>col_id = None, accessorKey = Some ''role'', header = None, filterFn = None\<rparr>]"
       and d = "\<lparr>columnId = ''rank'', ftype = Select, placeholder = None, options = None, label = None\<rparr>"
       and ?fs1.0 = "[\<lparr>columnId = ''role'', ftype = MultiSelect, placeholder = None, options = None, label = None\<rparr>]"
       and ?fs2.0 = "[]"
       and getColumn = "\<lambda>i. if i = ''role'' then Some \<lparr>col_id = None, accessorKey = Some ''role'', header = None, filterFn = None\<rparr> else None"
       and serverSide = None and st = initial_state]
  by (simp add: normalizedId_def renderFilter_def Let_def initial_state_def getFilterValue_def)

text \<open>
  Claim C5, on the scenario of the specification: three rows with the ages 30, 22 and
  45, the age column declared with a number filter, filtering local, and the text 25
  typed into the number input.  The binder binds no predicate to the column, where the
  same declaration with type \<open>dateRange\<close> binds one; the input stores the text; the
  default range predicate of the table library reads the first two characters of the
  text as the bounds 2 and 5; and no row is kept.  A numeric filter with the lower bound
  25 keeps the rows with the ages 30 and 45.
\<close>

theorem C5_number_filter:
  "(let ageColumn = \<lparr>col_id = None, accessorKey = Some ''age'', header = None, filterFn = None\<rparr>;
        d = \<lparr>columnId = ''age'', ftype = Number, placeholder = Some ''Filter by age...'',
             options = None, label = None\<rparr>;
        data = [[(''role'', JStr ''Admin''), (''age'', JNum 30)],
                [(''role'', JStr ''User''), (''age'', JNum 22)],
                [(''role'', JStr ''Admin''), (''age'', JNum 45)]];
        getColumn = (\<lambda>cols cid. find (\<lambda>c. normalizedId c = Some cid) cols);
        st = next_state (table_onColumnFiltersChange None (number_onChange ''age'' ''25'')
                           initial_state initial_state)
    in processedColumns [ageColumn] [d] = [ageColumn]
       \<and> filterFn
            (hd (processedColumns [ageColumn]
                  [\<lparr>columnId = ''age'', ftype = DateRange, placeholder = None, options = None,
                    label = None\<rparr>]))
           = Some DateRangeFn
       \<and> columnFilters st = [(''age'', FString ''25'')]
       \<and> resolveFilterValue ''25'' = (Fin 2, Fin 5)
       \<and> filteredRowModel (libraryRun getColumn parse strToNumber other data) None [ageColumn] [d]
            data st = [])"
proof -
  let ?ageColumn = "\<lparr>col_id = None, accessorKey = Some ''age'', header = None, filterFn = None\<rparr>"
  let ?d = "\<lparr>columnId = ''age'', ftype = Number, placeholder = Some ''Filter by age...'',
             options = None, label = None\<rparr>"
  let ?r1 = "[(''role'', JStr ''Admin''), (''age'', JNum 30)]"
  let ?r2 = "[(''role'', JStr ''User''), (''age'', JNum 22)]"
  let ?r3 = "[(''role'', JStr ''Admin''), (''age'', JNum 45)]"
  let ?getColumn = "\<lambda>cols cid. find (\<lambda>c. normalizedId c = Some cid) cols"
  let ?st = "next_state (table_onColumnFiltersChange None (number_onChange ''age'' ''25'')
                           initial_state initial_state)"
  have bound: "processedColumns [?ageColumn] [?d] = [?ageColumn]"
    by (simp add: processedColumns_def processColumn_def columnIdsOf_def normalizedId_def id_in_def)
  have sibling: "filterFn
            (hd (processedColumns [?ageColumn]
                  [\<lparr>columnId = ''age'', ftype = DateRange, placeholder = None, options = None,
                    label = None\<rparr>]))
           = Some DateRangeFn"
    by (simp add: processedColumns_def processColumn_def columnIdsOf_def normalizedId_def id_in_def)
  have st: "columnFilters ?st = [(''age'', FString ''25'')]"
    by (simp add: table_onColumnFiltersChange_def number_onChange_def setFilterValue_text_def
        initial_state_def)
  have rng: "resolveFilterValue ''25'' = (Fin 2, Fin 5)"
    by (simp add: resolveFilterValue_def parseFloat_char_def Let_def)
  have auto: "getAutoFilterFn [?r1, ?r2, ?r3] ''age'' = AutoInNumberRange"
    by (simp add: getAutoFilterFn_def getValue_def)
  have col: "?getColumn [?ageColumn] ''age'' = Some ?ageColumn"
    by (simp add: normalizedId_def)
  have run: "\<And>r. libraryRun ?getColumn parse strToNumber other [?r1, ?r2, ?r3] [?ageColumn] r
                 ''age'' (FString ''25'')
               = inNumberRange strToNumber r ''age'' (Fin 2, Fin 5)"
    unfolding libraryRun_def col auto by (simp add: rng)
  have out: "\<not> inNumberRange strToNumber ?r1 ''age'' (Fin 2, Fin 5)"
    "\<not> inNumberRange strToNumber ?r2 ''age'' (Fin 2, Fin 5)"
    "\<not> inNumberRange strToNumber ?r3 ''age'' (Fin 2, Fin 5)"
    by (simp_all add: inNumberRange_def getValue_def num_le_def)
  have rows: "filteredRowModel (libraryRun ?getColumn parse strToNumber other [?r1, ?r2, ?r3]) None
                [?ageColumn] [?d] [?r1, ?r2, ?r3] ?st = []"
    unfolding filteredRowModel_def bound st
    by (simp add: table_manualFiltering_def isServerSide_def run out)
  from bound sibling st rng rows show ?thesis
    unfolding Let_def by blast
qed


section \<open>Properties of the change handlers\<close>

text \<open>
  A change of the sort state leaves the filter state and the locally filtered rows as
  they were and calls no filtering callback.  The sorting callback, when one is
  supplied, is called once, with the updater applied to the sort state of the render.
\<close>

lemma sorting_change_frame:
  "columnFilters (next_state (table_onSortingChange serverSide updater rendered queued))
     = columnFilters queued
   \<and> sorting (next_state (table_onSortingChange serverSide updater rendered queued))
     = apply_updater updater (sorting queued)
   \<and> (\<forall>f. FiltersCall f \<notin> set (calls (table_onSortingChange serverSide updater rendered queued)))
   \<and> filteredRowModel run serverSide columns filters data
        (next_state (table_onSortingChange serverSide updater rendered queued))
     = filteredRowModel run serverSide columns filters data queued"
  by (simp add: table_onSortingChange_def filteredRowModel_def Let_def split: option.splits)

lemma sorting_change_callback:
  "opt_chain serverSide onSortingChange = Some cb \<Longrightarrow>
   calls (table_onSortingChange serverSide updater rendered queued)
     = [SortingCall (apply_updater updater (sorting rendered))]"
  by (simp add: table_onSortingChange_def Let_def)

text \<open>
  Claim C2, for two changes of the sort state in one batch, sorting delegated and
  filtering local: the first adds the age column to the sort, the second the name
  column, both as functions of the old state.  No filtering callback is called and the
  filter state stays.  The first callback receives the new sort state.  The second
  receives the name column alone, while the new sort state is age followed by name:
  the callback is not called with the new sort state.
\<close>

theorem C2_batched_sort_change:
  "(let cfg = \<lparr>enabled = True, pageCount = 3, loading = None, onPaginationChange = None,
               onSortingChange = Some (\<lambda>s. Returned),
               onColumnFiltersChange = Some (\<lambda>f. Returned),
               manualPagination = None, manualSorting = None, manualFiltering = Some False\<rparr>;
        byAge = Updater (\<lambda>old. old @ [(''age'', False)]);
        byName = Updater (\<lambda>old. old @ [(''name'', False)]);
        first = table_onSortingChange (Some cfg) byAge initial_state initial_state;
        second = table_onSortingChange (Some cfg) byName initial_state (next_state first)
    in table_manualSorting (Some cfg) \<and> \<not> table_manualFiltering (Some cfg)
       \<and> calls first = [SortingCall [(''age'', False)]]
       \<and> sorting (next_state first) = [(''age'', False)]
       \<and> calls second = [SortingCall [(''name'', False)]]
       \<and> sorting (next_state second) = [(''age'', False), (''name'', False)]
       \<and> columnFilters (next_state second) = columnFilters initial_state)"
  by (simp add: table_manualSorting_def table_manualFiltering_def isServerSide_def
      table_onSortingChange_def initial_state_def Let_def)

text \<open>
  Claim C7, as the code has it.  The column-visibility and row-selection setters never
  throw.  The sorting, column-filters and pagination setters throw exactly when a
  delegate callback is supplied and that callback throws on the value it is called
  with; the error that reaches the caller is the one the callback threw.  Updaters are
  the pure functions of the table library.
\<close>

theorem C7_setters:
  "thrown (table_onColumnVisibilityChange uv st) = None
   \<and> thrown (table_onRowSelectionChange enableRowSelection ur st) = None
   \<and> (thrown (table_onSortingChange serverSide us st queued) = Some err
        \<longleftrightarrow> (\<exists>cb. opt_chain serverSide onSortingChange = Some cb
                  \<and> cb (apply_updater us (sorting st)) = Threw err))
   \<and> (thrown (table_onColumnFiltersChange serverSide uf st queued) = Some err
        \<longleftrightarrow> (\<exists>cb. opt_chain serverSide onColumnFiltersChange = Some cb
                  \<and> cb (apply_updater uf (columnFilters st)) = Threw err))
   \<and> (thrown (table_onPaginationChange serverSide up st queued) = Some err
        \<longleftrightarrow> (\<exists>cb. opt_chain serverSide onPaginationChange = Some cb
                  \<and> cb (apply_updater up (pagination st)) = Threw err))"
proof -
  have esc: "\<And>r e. (escaped r = Some e) = (r = Threw e)"
    subgoal for r e by (cases r) simp_all
    done
  show ?thesis
    by (simp add: table_onColumnVisibilityChange_def table_onRowSelectionChange_def
        table_onSortingChange_def table_onColumnFiltersChange_def table_onPaginationChange_def
        Let_def esc split: option.splits)
qed

theorem C7_setters_witness:
  "(let cfg = \<lparr>enabled = True, pageCount = 3, loading = None, onPaginationChange = None,
               onSortingChange = Some (\<lambda>s. Returned),
               onColumnFiltersChange = None,
               manualPagination = None, manualSorting = None, manualFiltering = None\<rparr>
    in thrown (table_onSortingChange (Some cfg) (Value [(''age'', True)]) initial_state initial_state)
         \<noteq> Some (Error ''x'')
       \<and> thrown (table_onColumnVisibilityChange (Value [(''age'', False)]) initial_state) = None)"
  using C7_setters [where serverSide = "Some \<lparr>enabled = True, pageCount = 3, loading = None, onPaginationChange = None,
               onSortingChange = Some (\<lambda>s. Returned),
               onColumnFiltersChange = None,
               manualPagination = None, manualSorting = None, manualFiltering = None\<rparr>"
      and us = "Value [(''age'', True)]" and st = initial_state and queued = initial_state
      and err = "Error ''x''" and uv = "Value [(''age'', False)]"]
  by (simp add: Let_def)

text \<open>
  Claim C7 as it is written fails in a delegated mode whose sorting callback throws:
  the setter passes the error on to its caller.
\<close>

theorem C7_setters_counterexample:
  "(let cfg = \<lparr>enabled = True, pageCount = 3, loading = None, onPaginationChange = None,
               onSortingChange = Some (\<lambda>s. Threw (Error ''fetch failed'')),
               onColumnFiltersChange = None,
               manualPagination = None, manualSorting = Some True, manualFiltering = None\<rparr>
    in table_manualSorting (Some cfg)
       \<and> thrown (table_onSortingChange (Some cfg) (Value [(''age'', True)]) initial_state
                   initial_state)
           = Some (Error ''fetch failed''))"
  by (simp add: table_manualSorting_def table_onSortingChange_def Let_def)


section \<open>Properties of the sort\<close>

lemma cmp_le_sgn: "cmp_le v = (cmp_sgn v \<le> 0)"
  by (cases v) (simp_all add: sgn_if)

lemma consistent_total:
  assumes "consistent_on cmp S" and "a \<in> S" and "b \<in> S" and "\<not> cmp_le (cmp a b)"
  shows "cmp_le (cmp b a)"
proof -
  have "cmp_sgn (cmp b a) = - cmp_sgn (cmp a b)"
    using assms(1-3) unfolding consistent_on_def by blast
  moreover have "\<not> cmp_sgn (cmp a b) \<le> 0"
    using assms(4) by (simp add: cmp_le_sgn)
  ultimately have "cmp_sgn (cmp b a) \<le> 0" by linarith
  then show ?thesis by (simp add: cmp_le_sgn)
qed

lemma consistent_trans:
  assumes "consistent_on cmp S" and "a \<in> S" and "b \<in> S" and "c \<in> S"
    and "cmp_le (cmp a b)" and "cmp_le (cmp b c)"
  shows "cmp_le (cmp a c)"
  using assms unfolding consistent_on_def by blast

lemma set_sort_insert: "set (sort_insert cmp x xs) = insert x (set xs)"
  by (induction xs) auto

lemma mset_sort_insert: "mset (sort_insert cmp x xs) = add_mset x (mset xs)"
  by (induction xs) auto

lemma mset_stable_sort: "mset (stable_sort cmp xs) = mset xs"
  by (induction xs) (simp_all add: stable_sort_def mset_sort_insert)

lemma set_stable_sort: "set (stable_sort cmp xs) = set xs"
  using mset_stable_sort [of cmp xs] by (metis set_mset_mset)

lemma stable_sort_Cons: "stable_sort cmp (x # xs) = sort_insert cmp x (stable_sort cmp xs)"
  by (simp add: stable_sort_def)

lemma sorted_sort_insert:
  assumes "consistent_on cmp S" and "x \<in> S" and "set xs \<subseteq> S"
    and "sorted_wrt (\<lambda>a b. cmp_le (cmp a b)) xs"
  shows "sorted_wrt (\<lambda>a b. cmp_le (cmp a b)) (sort_insert cmp x xs)"
  using assms(3,4)
proof (induction xs)
  case Nil
  then show ?case by simp
next
  case (Cons y ys)
  show ?case
  proof (cases "cmp_le (cmp x y)")
    case True
    have "\<forall>z \<in> set ys. cmp_le (cmp x z)"
    proof
      fix z assume z: "z \<in> set ys"
      then have "cmp_le (cmp y z)" using Cons.prems(2) by simp
      then show "cmp_le (cmp x z)"
        using consistent_trans [OF assms(1) assms(2), of y z] True z Cons.prems(1) by auto
    qed
    then show ?thesis using True Cons.prems(2) by simp
  next
    case False
    have yx: "cmp_le (cmp y x)"
      using consistent_total [OF assms(1) assms(2) _ False] Cons.prems(1) by simp
    have "sorted_wrt (\<lambda>a b. cmp_le (cmp a b)) (sort_insert cmp x ys)"
      using Cons by simp
    then show ?thesis
      using False yx Cons.prems(2) by (auto simp: set_sort_insert)
  qed
qed

lemma sorted_stable_sort:
  assumes "consistent_on cmp S" and "set xs \<subseteq> S"
  shows "sorted_wrt (\<lambda>a b. cmp_le (cmp a b)) (stable_sort cmp xs)"
  using assms(2)
proof (induction xs)
  case Nil
  then show ?case by (simp add: stable_sort_def)
next
  case (Cons x xs)
  then show ?case
    using sorted_sort_insert [OF assms(1), of x "stable_sort cmp xs"]
    by (simp add: stable_sort_Cons set_stable_sort)
qed

lemma sort_insert_front:
  "\<forall>y \<in> set xs. cmp_le (cmp x y) \<Longrightarrow> sort_insert cmp x xs = x # xs"
  by (cases xs) simp_all

lemma stable_sort_sorted_id:
  "sorted_wrt (\<lambda>a b. cmp_le (cmp a b)) xs \<Longrightarrow> stable_sort cmp xs = xs"
  by (induction xs) (simp_all add: stable_sort_Cons sort_insert_front, simp add: stable_sort_def)

lemma filter_sort_insert_out:
  "\<not> P x \<Longrightarrow> filter P (sort_insert cmp x xs) = filter P xs"
  by (induction xs) simp_all

lemma filter_sort_insert_in:
  assumes "consistent_on cmp S" and "k \<in> S" and "x \<in> S" and "set xs \<subseteq> S"
    and "ties cmp k x"
  shows "filter (ties cmp k) (sort_insert cmp x xs) = x # filter (ties cmp k) xs"
  using assms(4)
proof (induction xs)
  case Nil
  then show ?case using assms(5) by simp
next
  case (Cons y ys)
  show ?case
  proof (cases "cmp_le (cmp x y)")
    case True
    then show ?thesis using assms(5) by simp
  next
    case False
    have "\<not> ties cmp k y"
    proof
      assume t: "ties cmp k y"
      have "cmp_le (cmp x k)" using assms(5) by (simp add: ties_def)
      moreover have "cmp_le (cmp k y)" using t by (simp add: ties_def)
      ultimately have "cmp_le (cmp x y)"
        using consistent_trans [OF assms(1) assms(3) assms(2), of y] Cons.prems by simp
      then show False using False by simp
    qed
    then show ?thesis using False Cons by simp
  qed
qed

lemma stable_sort_stable:
  assumes "consistent_on cmp S" and "k \<in> S" and "set xs \<subseteq> S"
  shows "filter (ties cmp k) (stable_sort cmp xs) = filter (ties cmp k) xs"
  using assms(3)
proof (induction xs)
  case Nil
  then show ?case by (simp add: stable_sort_def)
next
  case (Cons x xs)
  show ?case
  proof (cases "ties cmp k x")
    case True
    have "filter (ties cmp k) (sort_insert cmp x (stable_sort cmp xs))
            = x # filter (ties cmp k) (stable_sort cmp xs)"
      using filter_sort_insert_in [OF assms(1) assms(2) _ _ True, of "stable_sort cmp xs"] Cons.prems
      by (simp add: set_stable_sort)
    then show ?thesis using True Cons by (simp add: stable_sort_Cons)
  next
    case False
    then show ?thesis using Cons by (simp add: stable_sort_Cons filter_sort_insert_out)
  qed
qed

lemma js_sort_consistent:
  "consistent_on cmp (set xs) \<Longrightarrow> js_sort other cmp xs = stable_sort cmp xs"
  by (simp add: js_sort_def)

lemma js_sort_rev:
  "consistent_on cmp (set xs) \<Longrightarrow> js_sort other cmp (rev xs) = stable_sort cmp (rev xs)"
  by (simp add: js_sort_def)

lemma js_sort_sorted:
  "consistent_on cmp (set xs) \<Longrightarrow>
   js_sort other cmp (stable_sort cmp xs) = stable_sort cmp xs"
  using sorted_stable_sort [of cmp "set xs" xs] stable_sort_sorted_id [of cmp "stable_sort cmp xs"]
  by (simp add: js_sort_def set_stable_sort)

lemma compareUsers_strings:
  "getValue a sb = JStr x \<Longrightarrow> getValue b sb = JStr y \<Longrightarrow>
   compareUsers eng sb a b = Fin (localeCompare eng x y)"
  by (simp add: compareUsers_def)

lemma compareUsers_numbers:
  "getValue a sb = JNum m \<Longrightarrow> getValue b sb = JNum n \<Longrightarrow>
   compareUsers eng sb a b = round_double (m - n)"
  by (simp add: compareUsers_def num_sub_def)

lemma compareUsers_small:
  "getValue a sb = JNum m \<Longrightarrow> getValue b sb = JNum n \<Longrightarrow> \<bar>m - n\<bar> < 2 ^ 53 \<Longrightarrow>
   compareUsers eng sb a b = Fin (m - n)"
  by (simp add: compareUsers_numbers round_double_small)

text \<open>
  Claim C6, as the code has it.  Sorting by a column whose comparator is consistent on
  the rows gives, in ascending direction, a permutation of the rows that is ordered by
  the comparator and stable: rows that tie keep their order.  The comparator is
  \<open>localeCompare\<close> on two strings and the difference on two numbers.  The descending
  result is the ascending result reversed, not a sort by the negated comparator: rows
  that tie come out in the reverse of their order in the input.  So sorting the
  ascending result in descending direction reverses it exactly, and over the same rows
  the reverse of the descending result is the ascending result again; but sorting the
  descending result in ascending direction leaves the rows that tie in reversed order.
\<close>

theorem C6_sortUsers:
  assumes "sb \<noteq> []" and "consistent_on (compareUsers eng sb) (set users)"
  shows "sortUsers eng users (Some sb) (Some ''desc'')
           = rev (sortUsers eng users (Some sb) (Some ''asc''))
         \<and> mset (sortUsers eng users (Some sb) (Some ''asc'')) = mset users
         \<and> sorted_wrt (\<lambda>a b. cmp_le (compareUsers eng sb a b))
              (sortUsers eng users (Some sb) (Some ''asc''))
         \<and> (\<forall>k \<in> set users.
               filter (ties (compareUsers eng sb) k) (sortUsers eng users (Some sb) (Some ''asc''))
                 = filter (ties (compareUsers eng sb) k) users)
         \<and> (\<forall>k \<in> set users.
               filter (ties (compareUsers eng sb) k) (sortUsers eng users (Some sb) (Some ''desc''))
                 = rev (filter (ties (compareUsers eng sb) k) users))
         \<and> sortUsers eng (sortUsers eng users (Some sb) (Some ''asc'')) (Some sb) (Some ''desc'')
             = rev (sortUsers eng users (Some sb) (Some ''asc''))
         \<and> rev (sortUsers eng users (Some sb) (Some ''desc''))
             = sortUsers eng users (Some sb) (Some ''asc'')
         \<and> (\<forall>k \<in> set users.
               filter (ties (compareUsers eng sb) k)
                 (sortUsers eng (sortUsers eng users (Some sb) (Some ''desc'')) (Some sb) (Some ''asc''))
                 = rev (filter (ties (compareUsers eng sb) k) users))
         \<and> (getValue a sb = JStr x \<and> getValue b sb = JStr y \<longrightarrow>
               compareUsers eng sb a b = Fin (localeCompare eng x y))
         \<and> (getValue a sb = JNum m \<and> getValue b sb = JNum n \<longrightarrow>
               compareUsers eng sb a b = round_double (m - n))"
proof -
  let ?cmp = "compareUsers eng sb"
  let ?A = "stable_sort ?cmp users"
  have asc: "sortUsers eng users (Some sb) (Some ''asc'') = ?A"
    using assms by (simp add: sortUsers_def js_sort_consistent)
  have desc: "sortUsers eng users (Some sb) (Some ''desc'') = rev ?A"
    using assms by (simp add: sortUsers_def js_sort_consistent)
  have setA: "set ?A = set users" by (rule set_stable_sort)
  have consA: "consistent_on ?cmp (set ?A)" "consistent_on ?cmp (set (rev ?A))"
    using assms(2) by (simp_all add: setA)
  have p1: "sortUsers eng users (Some sb) (Some ''desc'')
              = rev (sortUsers eng users (Some sb) (Some ''asc''))"
    by (simp add: asc desc)
  have p2: "mset (sortUsers eng users (Some sb) (Some ''asc'')) = mset users"
    by (simp add: asc mset_stable_sort)
  have p3: "sorted_wrt (\<lambda>a b. cmp_le (?cmp a b)) (sortUsers eng users (Some sb) (Some ''asc''))"
    using sorted_stable_sort [OF assms(2)] by (simp add: asc)
  have p4: "\<forall>k \<in> set users.
               filter (ties ?cmp k) (sortUsers eng users (Some sb) (Some ''asc''))
                 = filter (ties ?cmp k) users"
    using stable_sort_stable [OF assms(2)] by (simp add: asc)
  have p5: "\<forall>k \<in> set users.
               filter (ties ?cmp k) (sortUsers eng users (Some sb) (Some ''desc''))
                 = rev (filter (ties ?cmp k) users)"
    using p4 by (simp add: p1 flip: rev_filter)
  have "sortUsers eng ?A (Some sb) (Some ''desc'') = rev (js_sort (sortInconsistent eng) ?cmp ?A)"
    using assms(1) by (simp add: sortUsers_def)
  then have p6: "sortUsers eng (sortUsers eng users (Some sb) (Some ''asc'')) (Some sb) (Some ''desc'')
             = rev (sortUsers eng users (Some sb) (Some ''asc''))"
    using js_sort_sorted [OF assms(2)] by (simp add: asc)
  have p7: "rev (sortUsers eng users (Some sb) (Some ''desc''))
             = sortUsers eng users (Some sb) (Some ''asc'')"
    by (simp add: p1)
  have resort: "sortUsers eng (rev ?A) (Some sb) (Some ''asc'') = stable_sort ?cmp (rev ?A)"
    using assms(1) consA(2) by (simp add: sortUsers_def js_sort_def)
  have p8: "\<forall>k \<in> set users.
               filter (ties ?cmp k)
                 (sortUsers eng (sortUsers eng users (Some sb) (Some ''desc'')) (Some sb) (Some ''asc''))
                 = rev (filter (ties ?cmp k) users)"
  proof
    fix k assume k: "k \<in> set users"
    have "filter (ties ?cmp k) (stable_sort ?cmp (rev ?A)) = filter (ties ?cmp k) (rev ?A)"
      using stable_sort_stable [OF assms(2) k, of "rev ?A"] by (simp add: setA)
    also have "\<dots> = rev (filter (ties ?cmp k) ?A)" by (simp add: rev_filter)
    also have "\<dots> = rev (filter (ties ?cmp k) users)"
      using stable_sort_stable [OF assms(2) k, of users] by simp
    finally show "filter (ties ?cmp k)
                 (sortUsers eng (sortUsers eng users (Some sb) (Some ''desc'')) (Some sb) (Some ''asc''))
                 = rev (filter (ties ?cmp k) users)"
      by (simp add: desc resort)
  qed
  from p1 p2 p3 p4 p5 p6 p7 p8 show ?thesis
    using compareUsers_strings [of a sb x b y eng] compareUsers_numbers [of a sb m b n eng]
    by blast
qed

theorem C6_sortUsers_witness:
  "(let eng = \<lparr>localeCompare = (\<lambda>a b. 0), dateParse = (\<lambda>s. None),
               bigNumberToString = (\<lambda>n. []), sortInconsistent = (\<lambda>cmp xs. xs)\<rparr>;
        users = [[(''role'', JStr ''Admin''), (''age'', JNum 30)],
                 [(''role'', JStr ''User''), (''age'', JNum 22)],
                 [(''role'', JStr ''Admin''), (''age'', JNum 45)]]
    in ''age'' \<noteq> []
       \<and> consistent_on (compareUsers eng ''age'') (set users)
       \<and> sortUsers eng users (Some ''age'') (Some ''asc'')
           = [[(''role'', JStr ''User''), (''age'', JNum 22)],
              [(''role'', JStr ''Admin''), (''age'', JNum 30)],
              [(''role'', JStr ''Admin''), (''age'', JNum 45)]]
       \<and> sortUsers eng users (Some ''age'') (Some ''desc'')
           = [[(''role'', JStr ''Admin''), (''age'', JNum 45)],
              [(''role'', JStr ''Admin''), (''age'', JNum 30)],
              [(''role'', JStr ''User''), (''age'', JNum 22)]])"
proof -
  let ?eng = "\<lparr>localeCompare = (\<lambda>a b. 0), dateParse = (\<lambda>s. None),
               bigNumberToString = (\<lambda>n. []), sortInconsistent = (\<lambda>cmp xs. xs)\<rparr>"
  let ?a = "[(''role'', JStr ''Admin''), (''age'', JNum 30)]"
  let ?u = "[(''role'', JStr ''User''), (''age'', JNum 22)]"
  let ?b = "[(''role'', JStr ''Admin''), (''age'', JNum 45)]"
  let ?cmp = "compareUsers ?eng ''age''"
  have v: "getValue ?a ''age'' = JNum 30" "getValue ?u ''age'' = JNum 22"
    "getValue ?b ''age'' = JNum 45"
    by (simp_all add: getValue_def)
  have c: "?cmp ?a ?a = Fin 0" "?cmp ?a ?u = Fin 8" "?cmp ?a ?b = Fin (- 15)"
    "?cmp ?u ?a = Fin (- 8)" "?cmp ?u ?u = Fin 0" "?cmp ?u ?b = Fin (- 23)"
    "?cmp ?b ?a = Fin 15" "?cmp ?b ?u = Fin 23" "?cmp ?b ?b = Fin 0"
    using v by (simp_all add: compareUsers_small)
  have h1: "''age'' \<noteq> []" by simp
  have h2: "consistent_on ?cmp (set [?a, ?u, ?b])"
    unfolding consistent_on_def by (simp add: c)
  have "stable_sort ?cmp [?a, ?u, ?b] = [?u, ?a, ?b]"
    by (simp add: stable_sort_def c)
  then have asc: "sortUsers ?eng [?a, ?u, ?b] (Some ''age'') (Some ''asc'') = [?u, ?a, ?b]"
    using h2 by (simp add: sortUsers_def js_sort_consistent)
  from C6_sortUsers [OF h1 h2] asc h1 h2 show ?thesis
    by (simp add: Let_def)
qed

text \<open>
  Claim C6 as it is written fails on two rows of the same age: the descending sort puts
  them in the reverse of their input order, so it does not keep the order of ties, and
  sorting ascending, then that result descending, then that result ascending again
  leaves the two rows exchanged.
\<close>

theorem C6_sortUsers_counterexample:
  "(let eng = \<lparr>localeCompare = (\<lambda>a b. 0), dateParse = (\<lambda>s. None),
               bigNumberToString = (\<lambda>n. []), sortInconsistent = (\<lambda>cmp xs. xs)\<rparr>;
        users = [[(''role'', JStr ''Admin''), (''age'', JNum 30)],
                 [(''role'', JStr ''User''), (''age'', JNum 22)],
                 [(''role'', JStr ''Guest''), (''age'', JNum 30)]]
    in sortUsers eng users (Some ''age'') (Some ''desc'')
           = [[(''role'', JStr ''Guest''), (''age'', JNum 30)],
              [(''role'', JStr ''Admin''), (''age'', JNum 30)],
              [(''role'', JStr ''User''), (''age'', JNum 22)]]
       \<and> sortUsers eng users (Some ''age'') (Some ''asc'')
           = [[(''role'', JStr ''User''), (''age'', JNum 22)],
              [(''role'', JStr ''Admin''), (''age'', JNum 30)],
              [(''role'', JStr ''Guest''), (''age'', JNum 30)]]
       \<and> sortUsers eng
             (sortUsers eng (sortUsers eng users (Some ''age'') (Some ''asc''))
                (Some ''age'') (Some ''desc''))
             (Some ''age'') (Some ''asc'')
           = [[(''role'', JStr ''User''), (''age'', JNum 22)],
              [(''role'', JStr ''Guest''), (''age'', JNum 30)],
              [(''role'', JStr ''Admin''), (''age'', JNum 30)]])"
proof -
  let ?eng = "\<lparr>localeCompare = (\<lambda>a b. 0), dateParse = (\<lambda>s. None),
               bigNumberToString = (\<lambda>n. []), sortInconsistent = (\<lambda>cmp xs. xs)\<rparr>"
  let ?a = "[(''role'', JStr ''Admin''), (''age'', JNum 30)]"
  let ?u = "[(''role'', JStr ''User''), (''age'', JNum 22)]"
  let ?g = "[(''role'', JStr ''Guest''), (''age'', JNum 30)]"
  let ?cmp = "compareUsers ?eng ''age''"
  have v: "getValue ?a ''age'' = JNum 30" "getValue ?u ''age'' = JNum 22"
    "getValue ?g ''age'' = JNum 30"
    by (simp_all add: getValue_def)
  have c: "?cmp ?a ?a = Fin 0" "?cmp ?a ?u = Fin 8" "?cmp ?a ?g = Fin 0"
    "?cmp ?u ?a = Fin (- 8)" "?cmp ?u ?u = Fin 0" "?cmp ?u ?g = Fin (- 8)"
    "?cmp ?g ?a = Fin 0" "?cmp ?g ?u = Fin 8" "?cmp ?g ?g = Fin 0"
    using v by (simp_all add: compareUsers_small)
  have cons: "consistent_on ?cmp {?a, ?u, ?g}"
    unfolding consistent_on_def by (simp add: c)
  have s1: "js_sort (sortInconsistent ?eng) ?cmp [?a, ?u, ?g] = [?u, ?a, ?g]"
    using cons by (simp add: js_sort_def stable_sort_def c insert_commute)
  have s2: "js_sort (sortInconsistent ?eng) ?cmp [?u, ?a, ?g] = [?u, ?a, ?g]"
    using cons by (simp add: js_sort_def stable_sort_def c insert_commute)
  have s3: "js_sort (sortInconsistent ?eng) ?cmp [?g, ?a, ?u] = [?u, ?g, ?a]"
    using cons by (simp add: js_sort_def stable_sort_def c insert_commute)
  have asc: "sortUsers ?eng [?a, ?u, ?g] (Some ''age'') (Some ''asc'') = [?u, ?a, ?g]"
    using s1 by (simp add: sortUsers_def)
  have desc: "sortUsers ?eng [?a, ?u, ?g] (Some ''age'') (Some ''desc'') = [?g, ?a, ?u]"
    using s1 by (simp add: sortUsers_def)
  have desc2: "sortUsers ?eng [?u, ?a, ?g] (Some ''age'') (Some ''desc'') = [?g, ?a, ?u]"
    using s2 by (simp add: sortUsers_def)
  have asc3: "sortUsers ?eng [?g, ?a, ?u] (Some ''age'') (Some ''asc'') = [?u, ?g, ?a]"
    using s3 by (simp add: sortUsers_def)
  show ?thesis
    unfolding Let_def asc desc desc2 asc3 by simp
qed


section \<open>Properties of the page slice\<close>

lemma rel_index_round:
  assumes "0 \<le> n" and "int len < 2 ^ 53"
  shows "rel_index (round_double n) len = min (nat n) len"
proof (cases "n < 2 ^ 53")
  case True
  then have "round_double n = Fin n" using assms(1) by (simp add: round_double_small)
  then show ?thesis using assms(1) by (simp add: min_def) linarith
next
  case False
  then have big: "2 ^ 53 \<le> n" by simp
  have len: "len \<le> nat n" using big assms(2) by linarith
  from round_double_big [OF big] show ?thesis
  proof
    assume "round_double n = PosInf"
    then show ?thesis using len by simp
  next
    assume "\<exists>v. round_double n = Fin v \<and> 2 ^ 53 \<le> v"
    then obtain v where v: "round_double n = Fin v" "2 ^ 53 \<le> v" by blast
    have "0 \<le> v" using v(2) by (smt (verit) zero_le_power)
    moreover have "int len \<le> v" using v(2) assms(2) by linarith
    ultimately show ?thesis using v(1) len by (simp add: min_def)
  qed
qed

lemma rel_index_end:
  assumes "0 \<le> a" and "0 \<le> s" and "int len < 2 ^ 53"
  shows "rel_index (num_add (round_double a) (Fin s)) len = min (nat (a + s)) len"
proof (cases "a < 2 ^ 53")
  case True
  then have "round_double a = Fin a" using assms(1) by (simp add: round_double_small)
  then have "num_add (round_double a) (Fin s) = round_double (a + s)" by simp
  then show ?thesis using rel_index_round [of "a + s" len] assms by simp
next
  case False
  then have big: "2 ^ 53 \<le> a" by simp
  have len: "len \<le> nat (a + s)" using big assms(2,3) by linarith
  from round_double_big [OF big] show ?thesis
  proof
    assume "round_double a = PosInf"
    then show ?thesis using len by simp
  next
    assume "\<exists>v. round_double a = Fin v \<and> 2 ^ 53 \<le> v"
    then obtain v where v: "round_double a = Fin v" "2 ^ 53 \<le> v" by blast
    have vs: "0 \<le> v + s" "int len < v + s" using v(2) assms(2,3) by linarith+
    have "num_add (round_double a) (Fin s) = round_double (v + s)" using v(1) by simp
    moreover have "rel_index (round_double (v + s)) len = min (nat (v + s)) len"
      using rel_index_round [OF vs(1) assms(3)] .
    moreover have "len \<le> nat (v + s)" using vs by linarith
    ultimately show ?thesis using len by (simp add: min_def)
  qed
qed

lemma slice_clamped:
  "take (min (a + s) (length xs) - min a (length xs)) (drop (min a (length xs)) xs)
     = take s (drop a xs)"
proof (cases "a \<le> length xs")
  case True
  then have "min (a + s) (length xs) - min a (length xs) = min s (length xs - a)"
    by (simp add: min_def) linarith
  then show ?thesis using True by (simp add: min_def)
next
  case False
  then show ?thesis by (simp add: min_def)
qed

text \<open>
  Claim C9.  For a page index and a page size that are finite numbers of the language
  and not negative, and rows fewer than \<open>2^53\<close> as every array has, the page of the
  users route is the window \<open>rows[page * pageSize : page * pageSize + pageSize]\<close> of
  the filtered and sorted rows, and a page that starts at or after the end of the rows
  is empty.  Over 25 rows with page size 10, page 0 is rows 0 to 9, page 2 is the last
  five rows and page 3 is empty.
\<close>

theorem C9_pagination:
  "is_double p \<and> is_double s \<and> 0 \<le> p \<and> 0 \<le> s \<and> int (length rows) < 2 ^ 53 \<longrightarrow>
     paginatedUsers rows (Fin p) (Fin s) = take (nat s) (drop (nat (p * s)) rows)
     \<and> (int (length rows) \<le> p * s \<longrightarrow> paginatedUsers rows (Fin p) (Fin s) = [])"
proof (intro impI)
  assume h: "is_double p \<and> is_double s \<and> 0 \<le> p \<and> 0 \<le> s \<and> int (length rows) < 2 ^ 53"
  then have ps: "0 \<le> p * s" by simp
  have s: "0 \<le> s" and len: "int (length rows) < 2 ^ 53" using h by simp_all
  have k: "rel_index (num_mul (Fin p) (Fin s)) (length rows) = min (nat (p * s)) (length rows)"
    using rel_index_round [OF ps len] by simp
  have f: "rel_index (num_add (num_mul (Fin p) (Fin s)) (Fin s)) (length rows)
             = min (nat (p * s) + nat s) (length rows)"
    using rel_index_end [OF ps s len] ps s by (simp add: nat_add_distrib)
  have eq: "paginatedUsers rows (Fin p) (Fin s) = take (nat s) (drop (nat (p * s)) rows)"
    unfolding paginatedUsers_def js_slice_def Let_def k f by (rule slice_clamped)
  have "int (length rows) \<le> p * s \<longrightarrow> length rows \<le> nat (p * s)" by linarith
  then show "paginatedUsers rows (Fin p) (Fin s) = take (nat s) (drop (nat (p * s)) rows)
     \<and> (int (length rows) \<le> p * s \<longrightarrow> paginatedUsers rows (Fin p) (Fin s) = [])"
    using eq by simp
qed

theorem C9_pagination_witness:
  "is_double 2 \<and> is_double 10 \<and> (0::int) \<le> 2 \<and> (0::int) \<le> 10
   \<and> int (length [0 ..< 25]) < 2 ^ 53
   \<and> paginatedUsers [0 ..< 25] (Fin 0) (Fin 10) = [0 ..< 10]
   \<and> paginatedUsers [0 ..< 25] (Fin 2) (Fin 10) = [20 ..< 25]
   \<and> paginatedUsers [0 ..< 25] (Fin 3) (Fin 10) = []"
proof -
  have d: "is_double 0" "is_double 2" "is_double 3" "is_double 10"
    by (simp_all add: is_double_def round_double_small)
  have len: "int (length [0 ..< 25]) < 2 ^ 53" by simp
  from C9_pagination [of 0 10 "[0 ..< 25]"] C9_pagination [of 2 10 "[0 ..< 25]"]
    C9_pagination [of 3 10 "[0 ..< 25]"] d len
  show ?thesis by (simp add: take_upt drop_upt)
qed

text \<open>
  Beyond the finite numbers the slice is empty: a page size that \<open>parseInt\<close> reads as
  infinite gives \<open>0 * Infinity = NaN\<close> on page 0, and \<open>slice(NaN, NaN)\<close> is empty.
\<close>

lemma paginatedUsers_infinite_size: "paginatedUsers rows (Fin 0) PosInf = []"
  by (simp add: paginatedUsers_def js_slice_def)

lemma paginatedUsers_infinite_page: "0 < s \<Longrightarrow> paginatedUsers rows PosInf (Fin s) = []"
  by (simp add: paginatedUsers_def js_slice_def)

lemma paginatedUsers_nan: "paginatedUsers rows NaN pgSize = []"
  by (simp add: paginatedUsers_def js_slice_def)


end
